theory Spec2Isabelle
  imports Complex_Main "HOL-Library.Sublist" "HOL-Library.AList"
begin

section \<open>Strings, paths and the world the scripts act on\<close>

text \<open>
  Python strings are modelled as \<open>string\<close> (ASCII text). \<open>str.lower\<close> changes the
  letters \<open>A\<close> to \<open>Z\<close> and nothing else; \<open>in\<close>, \<open>startswith\<close> and \<open>endswith\<close> are
  the contiguous-sublist, prefix and suffix tests.
\<close>

definition char_lower :: "char \<Rightarrow> char" where
  "char_lower c =
     (case map_of (zip ''ABCDEFGHIJKLMNOPQRSTUVWXYZ'' ''abcdefghijklmnopqrstuvwxyz'') c of
        Some l \<Rightarrow> l
      | None \<Rightarrow> c)"

definition str_lower :: "string \<Rightarrow> string" where
  "str_lower s = map char_lower s"

definition py_in :: "string \<Rightarrow> string \<Rightarrow> bool" where
  "py_in sub s = sublist sub s"

definition startswith :: "string \<Rightarrow> string \<Rightarrow> bool" where
  "startswith s p = prefix p s"

definition endswith :: "string \<Rightarrow> string \<Rightarrow> bool" where
  "endswith s p = suffix p s"

text \<open>\<open>str(n)\<close> for a Python integer: decimal digits, with a minus sign when negative.\<close>

fun str_nat :: "nat \<Rightarrow> string" where
  "str_nat n =
     (if n < 10 then [''0123456789'' ! n]
      else str_nat (n div 10) @ [''0123456789'' ! (n mod 10)])"

definition str_int :: "int \<Rightarrow> string" where
  "str_int i = (if i < 0 then CHR ''-'' # str_nat (nat (- i)) else str_nat (nat i))"

text \<open>
  A \<open>pathlib.Path\<close> is the list of its components; \<open>p / name\<close> appends a component
  and \<open>p.name\<close> is the last one. \<open>Path.stem\<close> drops the final suffix: with
  \<open>i = name.rfind('.')\<close>, the stem is \<open>name[:i]\<close> when \<open>0 < i < len(name) - 1\<close> and
  the whole name otherwise.
\<close>

type_synonym path = "string list"

fun join_path :: "path \<Rightarrow> string" where
  "join_path [] = []"
| "join_path [c] = c"
| "join_path (c # cs) = c @ ''/'' @ join_path cs"

definition str_path :: "path \<Rightarrow> string" where
  "str_path p = (if p = [] then ''.'' else join_path p)"

definition path_name :: "path \<Rightarrow> string" where
  "path_name p = (if p = [] then [] else last p)"

fun rfind :: "char \<Rightarrow> string \<Rightarrow> nat option" where
  "rfind c [] = None"
| "rfind c (x # xs) =
     (case rfind c xs of
        Some i \<Rightarrow> Some (Suc i)
      | None \<Rightarrow> if x = c then Some 0 else None)"

definition stem :: "string \<Rightarrow> string" where
  "stem name =
     (case rfind CHR ''.'' name of
        Some i \<Rightarrow> if 0 < i \<and> i < length name - 1 then take i name else name
      | None \<Rightarrow> name)"

text \<open>
  The file system maps a path to a regular file with its text or to a directory.
  The exceptions are the ones the modelled calls raise; every one of them is an
  \<open>Exception\<close>, so the handlers of the scripts catch them all.
\<close>

datatype node = File string | Dir

type_synonym filesystem = "path \<Rightarrow> node option"

datatype exn =
    EOFError
  | FileNotFoundError
  | FileExistsError
  | NotADirectoryError
  | IsADirectoryError
  | ValueError
  | IndexError
  | TypeError
  | SameFileError
  | PermissionError
  | GeometryError

text \<open>One constructor for each \<open>print\<close> of the scripts, with the values it interpolates.\<close>

datatype msg =
    FoundCount nat
  | Listed string
  | Bound string string
  | MultipleFound string
  | Candidate nat string
  | Prompt string nat
  | InvalidChoice
  | EnterValidNumber
  | NoFileFound string
  | Running string
  | OpCompleted string
  | OpFailed string int
  | DecomposeCompleted
  | DecomposeFailed
  | RunningSimpleFoam int
  | SimpleFoamCompleted
  | SimpleFoamFailed
  | ReconstructCompleted
  | ReconstructFailed
  | StartingPipeline
  | Separator
  | Step string
  | SimulationFailedAt string
  | SimulationCompleted
  | TotalElapsed int
  | PrevTotalElapsed int
  | CoefficientNotFound path
  | NoDataFound
  | SimulationResults real real real real
  | ErrorExtracting exn
  | Removing path
  | CopyingBase path path
  | Copying string path path
  | Calculated string string
  | CentroidWarning string exn
  | SetupCompleted
  | ErrorSettingUp exn
  | UpdatedDecompose int
  | UFileNotFound path
  | UpdatingWheelCenters
  | UpdatedOrigin string string
  | OriginNotFound string
  | WheelCentersUpdated

text \<open>
  The world: the file system, the console input still to be read (each entry is the
  outcome of \<open>int(input(...).strip())\<close>, \<open>None\<close> when it raises \<open>ValueError\<close>),
  everything printed so far, the argument vectors of the external processes started
  so far, the reading of the wall clock (\<open>time.time()\<close>, in ticks), and the paths at
  which \<open>stat\<close> fails with an error that \<open>Path.exists\<close> does not swallow (a directory
  that may not be searched, a name that is too long), with that error.
\<close>

record world =
  fs :: filesystem
  stdin :: "int option list"
  stdout :: "msg list"
  invoked :: "string list list"
  clock :: int
  stat_error :: "path \<Rightarrow> exn option"

definition print :: "msg list \<Rightarrow> world \<Rightarrow> world" where
  "print ms w = w\<lparr>stdout := stdout w @ ms\<rparr>"

text \<open>
  \<open>Path.exists()\<close>: \<open>False\<close> when \<open>stat\<close> finds nothing at the path, \<open>True\<close> when it
  finds an entry, and the error of \<open>stat\<close> raised again when it is none of those
  that say that the path does not exist.
\<close>

definition path_exists :: "world \<Rightarrow> path \<Rightarrow> exn + bool" where
  "path_exists w p =
     (case stat_error w p of
        Some e \<Rightarrow> Inl e
      | None \<Rightarrow> Inr (fs w p \<noteq> None))"

section \<open>STLFileSelector\<close>

definition stl_components :: "string list" where
  "stl_components = [''FL'', ''FR'', ''RL'', ''RR'', ''mainBody'']"

text \<open>The test of lines 69 to 75 of \<open>main.py\<close>, on one file name.\<close>

definition name_matches :: "string \<Rightarrow> string \<Rightarrow> bool" where
  "name_matches component fname =
     (let filename = str_lower fname;
          component_lower = str_lower component
      in py_in component_lower filename
         \<or> startswith filename component_lower
         \<or> endswith filename (component_lower @ ''.stl''))"

definition matching_files :: "string \<Rightarrow> path list \<Rightarrow> path list" where
  "matching_files component stl_files =
     filter (\<lambda>stl_file. name_matches component (path_name stl_file)) stl_files"

text \<open>
  The \<open>while True\<close> loop of lines 86 to 97, for \<open>n\<close> candidates: it reads until a
  choice between 1 and \<open>n\<close> arrives, and \<open>input\<close> raises \<open>EOFError\<close> when the console
  has nothing left.
\<close>

fun select_loop ::
  "string \<Rightarrow> nat \<Rightarrow> int option list \<Rightarrow> msg list \<Rightarrow> (exn + nat) \<times> int option list \<times> msg list"
where
  "select_loop component n [] out = (Inl EOFError, [], out @ [Prompt component n])"
| "select_loop component n (None # ins) out =
     select_loop component n ins (out @ [Prompt component n, EnterValidNumber])"
| "select_loop component n (Some choice # ins) out =
     (let idx = choice - 1 in
      if 0 \<le> idx \<and> idx < int n then (Inr (nat idx), ins, out @ [Prompt component n])
      else select_loop component n ins (out @ [Prompt component n, InvalidChoice]))"

text \<open>
  The loop over the components (lines 64 to 100). \<open>found_files\<close> is the dictionary
  built so far, in insertion order; a component without a file returns the empty
  dictionary.
\<close>

fun resolve_components ::
  "string list \<Rightarrow> path list \<Rightarrow> (string \<times> path) list \<Rightarrow> world
     \<Rightarrow> (exn + (string \<times> path) list) \<times> world"
where
  "resolve_components [] stl_files found_files w = (Inr found_files, w)"
| "resolve_components (component # rest) stl_files found_files w =
     (let matching = matching_files component stl_files in
      if length matching = 1 then
        resolve_components rest stl_files
          (AList.update component (matching ! 0) found_files)
          (print [Bound component (path_name (matching ! 0))] w)
      else if length matching > 1 then
        (let w1 = print
               (MultipleFound component
                  # map (\<lambda>(i, file). Candidate (i + 1) (path_name file)) (enumerate 0 matching)) w
         in case select_loop component (length matching) (stdin w1) (stdout w1) of
              (Inl e, ins, out) \<Rightarrow> (Inl e, w1\<lparr>stdin := ins, stdout := out\<rparr>)
            | (Inr idx, ins, out) \<Rightarrow>
                resolve_components rest stl_files
                  (AList.update component (matching ! idx) found_files)
                  (print [Bound component (path_name (matching ! idx))]
                     (w1\<lparr>stdin := ins, stdout := out\<rparr>)))
      else (Inr [], print [NoFileFound component] w))"

text \<open>
  \<open>_find_stl_files_in_folder\<close>; \<open>stl_files\<close> is what \<open>folder.glob("*.stl")\<close> returned,
  the entries of the folder whose name ends in \<open>.stl\<close>, in the order of the listing.
\<close>

definition find_stl_files_in_folder ::
  "path list \<Rightarrow> world \<Rightarrow> (exn + (string \<times> path) list) \<times> world"
where
  "find_stl_files_in_folder stl_files w =
     resolve_components stl_components stl_files []
       (print (FoundCount (length stl_files) # map (\<lambda>f. Listed (path_name f)) stl_files) w)"

text \<open>
  Notions for the properties of the resolution. An entry of the console is a valid
  choice among \<open>n\<close> candidates when it is a number from 1 to \<open>n\<close>. The console serves a
  list of choices to be made, each among so many candidates, when for each in turn,
  after entries that are no valid choice, a valid one follows. \<open>candidates_before\<close> is
  the numbers of candidates of the components that stand before \<open>c\<close> and have several
  files.
\<close>

definition valid_choice :: "nat \<Rightarrow> int option \<Rightarrow> bool" where
  "valid_choice n x = (case x of Some choice \<Rightarrow> 1 \<le> choice \<and> choice \<le> int n | None \<Rightarrow> False)"

fun console_serves :: "nat list \<Rightarrow> int option list \<Rightarrow> bool" where
  "console_serves [] ins = True"
| "console_serves (n # ns) ins =
     (case dropWhile (\<lambda>x. \<not> valid_choice n x) ins of
        [] \<Rightarrow> False
      | x # rest \<Rightarrow> console_serves ns rest)"

definition candidates_before :: "string \<Rightarrow> path list \<Rightarrow> nat list" where
  "candidates_before c stl_files =
     filter (\<lambda>n. 1 < n)
       (map (\<lambda>d. length (matching_files d stl_files)) (takeWhile (\<lambda>d. d \<noteq> c) stl_components))"

section \<open>OpenFOAMRunner\<close>

text \<open>
  An external process is started with an argument vector, waited for, and its return
  code read. What it returns and how long it takes is the environment's: \<open>tools\<close>
  gives both, from the processes started before and the argument vector.
\<close>

type_synonym tools = "string list list \<Rightarrow> string list \<Rightarrow> int \<times> int"

definition run_tool :: "tools \<Rightarrow> string list \<Rightarrow> world \<Rightarrow> int \<times> world" where
  "run_tool env argv w =
     (let (returncode, duration) = env (invoked w) argv
      in (returncode, w\<lparr>invoked := invoked w @ [argv], clock := clock w + duration\<rparr>))"

definition run_with_log :: "tools \<Rightarrow> string list \<Rightarrow> string \<Rightarrow> world \<Rightarrow> bool \<times> world" where
  "run_with_log env argv operation w =
     (let (returncode, w1) = run_tool env argv (print [Running operation] w);
          success = (returncode = 0)
      in if success then (success, print [OpCompleted operation] w1)
         else (success, print [OpFailed operation returncode] w1))"

definition run_blockMesh :: "tools \<Rightarrow> path \<Rightarrow> world \<Rightarrow> bool \<times> world" where
  "run_blockMesh env case_dir w =
     run_with_log env [''blockMesh'', ''-case'', str_path case_dir] ''blockMesh'' w"

definition run_surfaceFeatureExtract :: "tools \<Rightarrow> path \<Rightarrow> string \<Rightarrow> world \<Rightarrow> bool \<times> world" where
  "run_surfaceFeatureExtract env case_dir dictPath w =
     run_with_log env
       [''surfaceFeatureExtract'', ''-case'', str_path case_dir, ''-dict'', dictPath]
       (''surfaceFeatureExtract ('' @ dictPath @ '')'') w"

definition run_snappyHexMesh :: "tools \<Rightarrow> path \<Rightarrow> world \<Rightarrow> bool \<times> world" where
  "run_snappyHexMesh env case_dir w =
     run_with_log env [''snappyHexMesh'', ''-overwrite'', ''-case'', str_path case_dir]
       ''snappyHexMesh'' w"

definition decompose_case :: "tools \<Rightarrow> path \<Rightarrow> world \<Rightarrow> bool \<times> world" where
  "decompose_case env case_dir w =
     (let (returncode, w1) = run_tool env [''decomposePar'', ''-force'', ''-case'', str_path case_dir] w;
          success = (returncode = 0)
      in if success then (success, print [DecomposeCompleted] w1)
         else (success, print [DecomposeFailed] w1))"

definition run_parallel_simpleFoam :: "tools \<Rightarrow> path \<Rightarrow> int \<Rightarrow> world \<Rightarrow> bool \<times> world" where
  "run_parallel_simpleFoam env case_dir n_proc w =
     (let mpirun_cmd = [''mpirun'', ''--allow-run-as-root'', ''-np'', str_int n_proc,
                        ''simpleFoam'', ''-case'', str_path case_dir, ''-parallel''];
          (returncode, w1) = run_tool env mpirun_cmd (print [RunningSimpleFoam n_proc] w);
          success = (returncode = 0)
      in if success then (success, print [SimpleFoamCompleted] w1)
         else (success, print [SimpleFoamFailed] w1))"

definition reconstruct_case :: "tools \<Rightarrow> path \<Rightarrow> world \<Rightarrow> bool \<times> world" where
  "reconstruct_case env case_dir w =
     (let (returncode, w1) = run_tool env [''reconstructPar'', ''-case'', str_path case_dir] w;
          success = (returncode = 0)
      in if success then (success, print [ReconstructCompleted] w1)
         else (success, print [ReconstructFailed] w1))"

definition dicts :: "string list" where
  "dicts =
     [''system/surfaceFeatureExtract_mainBodyDict'',
      ''system/surfaceFeatureExtract_FLDict'',
      ''system/surfaceFeatureExtract_FRDict'',
      ''system/surfaceFeatureExtract_RLDict'',
      ''system/surfaceFeatureExtract_RRDict'']"

text \<open>The \<open>for\<close> loop of \<open>run_all_surfaceFeatureExtract\<close>, over the dictionaries left.\<close>

fun extract_loop :: "tools \<Rightarrow> path \<Rightarrow> string list \<Rightarrow> world \<Rightarrow> bool \<times> world" where
  "extract_loop env case_dir [] w = (True, w)"
| "extract_loop env case_dir (dict_path # rest) w =
     (let (ok, w1) = run_surfaceFeatureExtract env case_dir dict_path w
      in if \<not> ok then (False, w1) else extract_loop env case_dir rest w1)"

definition run_all_surfaceFeatureExtract :: "tools \<Rightarrow> path \<Rightarrow> world \<Rightarrow> bool \<times> world" where
  "run_all_surfaceFeatureExtract env case_dir w = extract_loop env case_dir dicts w"

definition steps :: "tools \<Rightarrow> path \<Rightarrow> int \<Rightarrow> (string \<times> (world \<Rightarrow> bool \<times> world)) list" where
  "steps env case_dir n_proc =
     [(''Background mesh generation'', run_blockMesh env case_dir),
      (''Surface feature extraction'', run_all_surfaceFeatureExtract env case_dir),
      (''Mesh generation'', run_snappyHexMesh env case_dir),
      (''Case decomposition'', decompose_case env case_dir),
      (''Parallel solver'', run_parallel_simpleFoam env case_dir n_proc),
      (''Case reconstruction'', reconstruct_case env case_dir)]"

text \<open>The \<open>for\<close> loop of \<open>run_full_simulation\<close> (lines 387 to 394), over the steps left.\<close>

fun steps_loop :: "(string \<times> (world \<Rightarrow> bool \<times> world)) list \<Rightarrow> world \<Rightarrow> bool \<times> world" where
  "steps_loop [] w = (True, w)"
| "steps_loop ((step_name, step_func) # rest) w =
     (let (ok, w1) = step_func (print [Separator, Step step_name, Separator] w)
      in if \<not> ok then (False, print [SimulationFailedAt step_name] w1)
         else steps_loop rest w1)"

definition run_full_simulation :: "tools \<Rightarrow> path \<Rightarrow> int \<Rightarrow> world \<Rightarrow> bool \<times> world" where
  "run_full_simulation env case_dir n_proc w =
     (let w0 = print [StartingPipeline] w;
          start_time = clock w0;
          (ok, w1) = steps_loop (steps env case_dir n_proc) w0
      in if \<not> ok then (False, w1)
         else (let end_time = clock w1;
                   elapsed = end_time - start_time
               in (True, print [Separator, SimulationCompleted, TotalElapsed elapsed, Separator] w1)))"

section \<open>OpenFOAMParallelRunner, the previous runner\<close>

text \<open>
  \<open>my-previous-runner.py\<close> starts the same processes and prints nothing but the
  elapsed time of a run that succeeded.
\<close>

definition prev_run_with_log :: "tools \<Rightarrow> string list \<Rightarrow> world \<Rightarrow> bool \<times> world" where
  "prev_run_with_log env argv w = (let (returncode, w1) = run_tool env argv w in (returncode = 0, w1))"

definition prev_run_blockMesh :: "tools \<Rightarrow> path \<Rightarrow> world \<Rightarrow> bool \<times> world" where
  "prev_run_blockMesh env case_dir w =
     prev_run_with_log env [''blockMesh'', ''-case'', str_path case_dir] w"

definition prev_run_surfaceFeatureExtract :: "tools \<Rightarrow> path \<Rightarrow> string \<Rightarrow> world \<Rightarrow> bool \<times> world" where
  "prev_run_surfaceFeatureExtract env case_dir dictPath w =
     prev_run_with_log env
       [''surfaceFeatureExtract'', ''-case'', str_path case_dir, ''-dict'', dictPath] w"

definition prev_run_snappyHexMesh :: "tools \<Rightarrow> path \<Rightarrow> world \<Rightarrow> bool \<times> world" where
  "prev_run_snappyHexMesh env case_dir w =
     prev_run_with_log env [''snappyHexMesh'', ''-overwrite'', ''-case'', str_path case_dir] w"

definition prev_decompose_case :: "tools \<Rightarrow> path \<Rightarrow> world \<Rightarrow> bool \<times> world" where
  "prev_decompose_case env case_dir w =
     prev_run_with_log env [''decomposePar'', ''-force'', ''-case'', str_path case_dir] w"

definition prev_run_parallel_simpleFoam :: "tools \<Rightarrow> path \<Rightarrow> int \<Rightarrow> world \<Rightarrow> bool \<times> world" where
  "prev_run_parallel_simpleFoam env case_dir n_proc w =
     prev_run_with_log env
       [''mpirun'', ''--allow-run-as-root'', ''-np'', str_int n_proc,
        ''simpleFoam'', ''-case'', str_path case_dir, ''-parallel''] w"

definition prev_reconstruct_case :: "tools \<Rightarrow> path \<Rightarrow> world \<Rightarrow> bool \<times> world" where
  "prev_reconstruct_case env case_dir w =
     prev_run_with_log env [''reconstructPar'', ''-case'', str_path case_dir] w"

fun prev_extract_loop :: "tools \<Rightarrow> path \<Rightarrow> string list \<Rightarrow> world \<Rightarrow> bool \<times> world" where
  "prev_extract_loop env case_dir [] w = (True, w)"
| "prev_extract_loop env case_dir (dict_path # rest) w =
     (let (ok, w1) = prev_run_surfaceFeatureExtract env case_dir dict_path w
      in if \<not> ok then (False, w1) else prev_extract_loop env case_dir rest w1)"

definition prev_run_all_surfaceFeatureExtract :: "tools \<Rightarrow> path \<Rightarrow> world \<Rightarrow> bool \<times> world" where
  "prev_run_all_surfaceFeatureExtract env case_dir w = prev_extract_loop env case_dir dicts w"

definition run_all :: "tools \<Rightarrow> path \<Rightarrow> int \<Rightarrow> world \<Rightarrow> bool \<times> world" where
  "run_all env case_dir n_proc w =
     (let start_time = clock w;
          (ok1, w1) = prev_run_blockMesh env case_dir w
      in if \<not> ok1 then (False, w1) else
     (let (ok2, w2) = prev_run_all_surfaceFeatureExtract env case_dir w1
      in if \<not> ok2 then (False, w2) else
     (let (ok3, w3) = prev_run_snappyHexMesh env case_dir w2
      in if \<not> ok3 then (False, w3) else
     (let (ok4, w4) = prev_decompose_case env case_dir w3
      in if \<not> ok4 then (False, w4) else
     (let (ok5, w5) = prev_run_parallel_simpleFoam env case_dir n_proc w4
      in if \<not> ok5 then (False, w5) else
     (let (ok6, w6) = prev_reconstruct_case env case_dir w5
      in if \<not> ok6 then (False, w6) else
     (let end_time = clock w6;
          elapsed = end_time - start_time
      in (True, print [PrevTotalElapsed elapsed] w6))))))))"

section \<open>What a run of the pipeline starts, in order\<close>

text \<open>
  The ten argument vectors of a full run, in the order in which the six steps start
  them, and the step each belongs to. \<open>first_failing\<close> scans them as the environment
  answers: the index of the first process that returns a code other than zero.
\<close>

definition pipeline_argvs :: "path \<Rightarrow> int \<Rightarrow> string list list" where
  "pipeline_argvs case_dir n_proc =
     [[''blockMesh'', ''-case'', str_path case_dir]]
     @ map (\<lambda>d. [''surfaceFeatureExtract'', ''-case'', str_path case_dir, ''-dict'', d]) dicts
     @ [[''snappyHexMesh'', ''-overwrite'', ''-case'', str_path case_dir],
        [''decomposePar'', ''-force'', ''-case'', str_path case_dir],
        [''mpirun'', ''--allow-run-as-root'', ''-np'', str_int n_proc,
         ''simpleFoam'', ''-case'', str_path case_dir, ''-parallel''],
        [''reconstructPar'', ''-case'', str_path case_dir]]"

definition step_of_index :: "nat \<Rightarrow> string" where
  "step_of_index k =
     (if k = 0 then ''Background mesh generation''
      else if k \<le> 5 then ''Surface feature extraction''
      else if k = 6 then ''Mesh generation''
      else if k = 7 then ''Case decomposition''
      else if k = 8 then ''Parallel solver''
      else ''Case reconstruction'')"

fun first_failing :: "tools \<Rightarrow> string list list \<Rightarrow> string list list \<Rightarrow> nat option" where
  "first_failing env history [] = None"
| "first_failing env history (argv # rest) =
     (if fst (env history argv) \<noteq> 0 then Some 0
      else map_option Suc (first_failing env (history @ [argv]) rest))"

text \<open>What was printed since the world \<open>w\<close>.\<close>

definition printed_since :: "world \<Rightarrow> world \<Rightarrow> msg list" where
  "printed_since w w' = drop (length (stdout w)) (stdout w')"

section \<open>Auxiliary notions for the properties of the runners\<close>

text \<open>
  The argument vectors a run starts: all of them, or those up to the first failing one.
  A step \<open>runs\<close> a list of argument vectors when it starts exactly these, succeeds
  exactly when none fails, prints no elapsed time and leaves the files and the console
  input alone.
\<close>

definition started :: "tools \<Rightarrow> string list list \<Rightarrow> string list list \<Rightarrow> string list list" where
  "started env history argvs =
     (case first_failing env history argvs of None \<Rightarrow> argvs | Some k \<Rightarrow> take (Suc k) argvs)"

fun is_elapsed :: "msg \<Rightarrow> bool" where
  "is_elapsed (TotalElapsed t) = True"
| "is_elapsed (PrevTotalElapsed t) = True"
| "is_elapsed m = False"

definition runs :: "tools \<Rightarrow> string list list \<Rightarrow> (world \<Rightarrow> bool \<times> world) \<Rightarrow> bool" where
  "runs env argvs f \<longleftrightarrow>
     (\<forall>w. fst (f w) = (first_failing env (invoked w) argvs = None)
        \<and> invoked (snd (f w)) = invoked w @ started env (invoked w) argvs
        \<and> (\<exists>ms. stdout (snd (f w)) = stdout w @ ms \<and> \<not> list_ex is_elapsed ms)
        \<and> fs (snd (f w)) = fs w \<and> stdin (snd (f w)) = stdin w)"

fun step_at :: "(string \<times> (world \<Rightarrow> bool \<times> world) \<times> string list list) list \<Rightarrow> nat \<Rightarrow> string" where
  "step_at [] k = []"
| "step_at ((step_name, step_func, argvs) # rest) k =
     (if k < length argvs then step_name else step_at rest (k - length argvs))"

definition steps_with_argvs ::
  "tools \<Rightarrow> path \<Rightarrow> int \<Rightarrow> (string \<times> (world \<Rightarrow> bool \<times> world) \<times> string list list) list" where
  "steps_with_argvs env case_dir n_proc =
     [(''Background mesh generation'', run_blockMesh env case_dir,
         [[''blockMesh'', ''-case'', str_path case_dir]]),
      (''Surface feature extraction'', run_all_surfaceFeatureExtract env case_dir,
         map (\<lambda>d. [''surfaceFeatureExtract'', ''-case'', str_path case_dir, ''-dict'', d]) dicts),
      (''Mesh generation'', run_snappyHexMesh env case_dir,
         [[''snappyHexMesh'', ''-overwrite'', ''-case'', str_path case_dir]]),
      (''Case decomposition'', decompose_case env case_dir,
         [[''decomposePar'', ''-force'', ''-case'', str_path case_dir]]),
      (''Parallel solver'', run_parallel_simpleFoam env case_dir n_proc,
         [[''mpirun'', ''--allow-run-as-root'', ''-np'', str_int n_proc,
           ''simpleFoam'', ''-case'', str_path case_dir, ''-parallel'']]),
      (''Case reconstruction'', reconstruct_case env case_dir,
         [[''reconstructPar'', ''-case'', str_path case_dir]])]"

text \<open>
  An environment for the examples: a process fails with code 1 when its program is
  \<open>name\<close>, every process takes one tick; and an empty world.
\<close>

definition tools_failing :: "string \<Rightarrow> tools" where
  "tools_failing name history argv = (if hd argv = name then (1, 1) else (0, 1))"

definition world0 :: world where
  "world0 = \<lparr>fs = Map.empty, stdin = [], stdout = [], invoked = [], clock = 0,
      stat_error = (\<lambda>p. None)\<rparr>"

text \<open>
  \<open>seq f g\<close> is \<open>if not f(): return False\<close> followed by \<open>g\<close>; \<open>prev_calls\<close> is the six
  calls of \<open>run_all\<close>, before the elapsed time is printed.
\<close>

definition seq :: "(world \<Rightarrow> bool \<times> world) \<Rightarrow> (world \<Rightarrow> bool \<times> world) \<Rightarrow> world \<Rightarrow> bool \<times> world" where
  "seq f g w = (let (ok, w1) = f w in if \<not> ok then (False, w1) else g w1)"

definition prev_calls :: "tools \<Rightarrow> path \<Rightarrow> int \<Rightarrow> world \<Rightarrow> bool \<times> world" where
  "prev_calls env case_dir n_proc =
     seq (prev_run_blockMesh env case_dir)
    (seq (prev_run_all_surfaceFeatureExtract env case_dir)
    (seq (prev_run_snappyHexMesh env case_dir)
    (seq (prev_decompose_case env case_dir)
    (seq (prev_run_parallel_simpleFoam env case_dir n_proc)
         (prev_reconstruct_case env case_dir)))))"

definition silent :: "(world \<Rightarrow> bool \<times> world) \<Rightarrow> bool" where
  "silent f \<longleftrightarrow> (\<forall>w. stdout (snd (f w)) = stdout w)"

section \<open>ResultsExtractor\<close>














text \<open>
  Folders for the examples of the resolution: one with a file for every component but
  \<open>RR\<close>, and one that has two files for \<open>FL\<close> as well.
\<close>

definition folder_two_FL :: "path list" where
  "folder_two_FL =
     [[''stl'', ''FL.stl''], [''stl'', ''FL_big.stl''], [''stl'', ''FR.stl''], [''stl'', ''RL.stl''],
      [''stl'', ''mainBody.stl'']]"

definition folder_without_RR :: "path list" where
  "folder_without_RR =
     [[''stl'', ''FL.stl''], [''stl'', ''Front_FR.stl''], [''stl'', ''rl.stl''], [''stl'', ''mainBody.stl'']]"

section \<open>Regular expressions as the scripts use them\<close>

text \<open>
  The two patterns of the scripts are sequences of items, each a character class taken
  once, or repeated greedily (\<open>+\<close>, \<open>*\<close>) or lazily (\<open>*?\<close>). \<open>\s\<close> is the white space
  of ASCII text as Python's \<open>str\<close> patterns read it, \<open>\d\<close> a decimal digit, \<open>[\s\S]\<close>
  any character and \<open>[^)]\<close> any character but the given one.
\<close>

datatype cls = Lit char | Space | Digit | AnyChar | NotChar char

datatype rep = Once | Plus | Star | LazyStar

type_synonym pattern = "(cls \<times> rep) list"

definition is_space :: "char \<Rightarrow> bool" where
  "is_space x \<longleftrightarrow>
     x \<in> set [CHR 0x09, CHR 0x0A, CHR 0x0B, CHR 0x0C, CHR 0x0D,
                CHR 0x1C, CHR 0x1D, CHR 0x1E, CHR 0x1F, CHR 0x20]"

definition is_digit :: "char \<Rightarrow> bool" where
  "is_digit x \<longleftrightarrow> x \<in> set ''0123456789''"

fun in_cls :: "cls \<Rightarrow> char \<Rightarrow> bool" where
  "in_cls (Lit c) x = (x = c)"
| "in_cls Space x = is_space x"
| "in_cls Digit x = is_digit x"
| "in_cls AnyChar x = True"
| "in_cls (NotChar c) x = (x \<noteq> c)"

definition lits :: "string \<Rightarrow> pattern" where
  "lits s = map (\<lambda>c. (Lit c, Once)) s"

text \<open>
  \<open>rmatch p s\<close> is the match of the pattern \<open>p\<close> at the start of \<open>s\<close> that the
  backtracking matcher of \<open>re\<close> finds first: a greedy item tries to take one more
  character before it tries to stop, a lazy one tries to stop first. The result is the
  text each item matched, \<open>None\<close> when no way matches.
\<close>

fun cons_first :: "char \<Rightarrow> string list \<Rightarrow> string list" where
  "cons_first x [] = [[x]]"
| "cons_first x (p # ps) = (x # p) # ps"

fun rmatch :: "pattern \<Rightarrow> string \<Rightarrow> string list option" where
  "rmatch [] s = Some []"
| "rmatch ((c, Once) # ts) [] = None"
| "rmatch ((c, Once) # ts) (x # xs) =
     (if in_cls c x then map_option (\<lambda>ps. [x] # ps) (rmatch ts xs) else None)"
| "rmatch ((c, Plus) # ts) [] = None"
| "rmatch ((c, Plus) # ts) (x # xs) =
     (if in_cls c x then map_option (cons_first x) (rmatch ((c, Star) # ts) xs) else None)"
| "rmatch ((c, Star) # ts) [] = map_option (\<lambda>ps. [] # ps) (rmatch ts [])"
| "rmatch ((c, Star) # ts) (x # xs) =
     (case (if in_cls c x then map_option (cons_first x) (rmatch ((c, Star) # ts) xs) else None) of
        Some ps \<Rightarrow> Some ps
      | None \<Rightarrow> map_option (\<lambda>ps. [] # ps) (rmatch ts (x # xs)))"
| "rmatch ((c, LazyStar) # ts) [] = map_option (\<lambda>ps. [] # ps) (rmatch ts [])"
| "rmatch ((c, LazyStar) # ts) (x # xs) =
     (case rmatch ts (x # xs) of
        Some ps \<Rightarrow> Some ([] # ps)
      | None \<Rightarrow>
          if in_cls c x then map_option (cons_first x) (rmatch ((c, LazyStar) # ts) xs) else None)"

text \<open>
  \<open>re.sub(pattern, repl, content)\<close>: from left to right, each match is replaced by
  what \<open>repl\<close> makes of it and the search goes on behind it; a character at which
  nothing matches is kept. (An empty match is replaced and the search moves on by one
  character; the patterns of the scripts match no empty text.)
\<close>

function re_sub :: "pattern \<Rightarrow> (string list \<Rightarrow> string) \<Rightarrow> string \<Rightarrow> string" where
  "re_sub p repl [] = (case rmatch p [] of Some ps \<Rightarrow> repl ps | None \<Rightarrow> [])"
| "re_sub p repl (x # xs) =
     (case rmatch p (x # xs) of
        None \<Rightarrow> x # re_sub p repl xs
      | Some ps \<Rightarrow>
          if concat ps = [] then repl ps @ x # re_sub p repl xs
          else repl ps @ re_sub p repl (drop (length (concat ps)) (x # xs)))"
  by pat_completeness auto

termination
  by (relation "measure (\<lambda>(p, repl, s). length s)") auto

section \<open>The file system calls of the scripts\<close>

text \<open>
  \<open>shutil.rmtree\<close>, \<open>shutil.copytree\<close>, \<open>Path.mkdir(parents=True, exist_ok=True)\<close>,
  \<open>shutil.copy2\<close> and reading and writing a file, each on the file system as a map:
  the new file system, or the exception raised. \<open>copytree\<close> creates the missing
  directories above the destination; the copy is described for a destination outside
  the source tree.
\<close>

definition is_file :: "filesystem \<Rightarrow> path \<Rightarrow> bool" where
  "is_file files p = (case files p of Some (File content) \<Rightarrow> True | _ \<Rightarrow> False)"

definition rmtree :: "path \<Rightarrow> filesystem \<Rightarrow> exn + filesystem" where
  "rmtree p files =
     (case files p of
        None \<Rightarrow> Inl FileNotFoundError
      | Some (File content) \<Rightarrow> Inl NotADirectoryError
      | Some Dir \<Rightarrow> Inr (\<lambda>q. if prefix p q then None else files q))"

definition copytree :: "path \<Rightarrow> path \<Rightarrow> filesystem \<Rightarrow> exn + filesystem" where
  "copytree src dst files =
     (case files src of
        None \<Rightarrow> Inl FileNotFoundError
      | Some (File content) \<Rightarrow> Inl NotADirectoryError
      | Some Dir \<Rightarrow>
          if files dst \<noteq> None then Inl FileExistsError
          else if list_ex (is_file files) (prefixes dst) then Inl NotADirectoryError
          else Inr (\<lambda>q. if prefix dst q then files (src @ drop (length dst) q)
                        else if prefix q dst then Some Dir
                        else files q))"

text \<open>
  \<open>mkdir\<close> with \<open>parents\<close> and \<open>exist_ok\<close>: nothing to do at a directory,
  \<open>FileExistsError\<close> at a regular file, \<open>NotADirectoryError\<close> below a regular file,
  and otherwise the directory and those missing above it are made.
\<close>

definition mkdir_parents :: "path \<Rightarrow> filesystem \<Rightarrow> exn + filesystem" where
  "mkdir_parents p files =
     (if files p = Some Dir then Inr files
      else if is_file files p then Inl FileExistsError
      else if list_ex (is_file files) (prefixes p) then Inl NotADirectoryError
      else Inr (\<lambda>q. if prefix q p then Some Dir else files q))"

definition copy2 :: "path \<Rightarrow> path \<Rightarrow> filesystem \<Rightarrow> exn + filesystem" where
  "copy2 src dst files =
     (case files src of
        None \<Rightarrow> Inl FileNotFoundError
      | Some Dir \<Rightarrow> Inl IsADirectoryError
      | Some (File content) \<Rightarrow>
          (let target = (if files dst = Some Dir then dst @ [path_name src] else dst)
           in if target = src then Inl SameFileError
              else if files target = Some Dir then Inl IsADirectoryError
              else if files target = None \<and> files (butlast target) \<noteq> Some Dir
                then Inl FileNotFoundError
              else Inr (files(target \<mapsto> File content))))"

text \<open>
  A file opened with \<open>open(path, 'r')\<close> is read with universal newlines: a carriage
  return followed by a line feed, and a carriage return alone, are read as one line
  feed. \<open>open(path, 'w')\<close> writes the text as it is (on a POSIX system, where a line
  feed is the line separator).
\<close>

fun universal_newlines :: "string \<Rightarrow> string" where
  "universal_newlines [] = []"
| "universal_newlines [c] = [if c = CHR 0x0D then CHR 0x0A else c]"
| "universal_newlines (c # d # cs) =
     (if c = CHR 0x0D \<and> d = CHR 0x0A then CHR 0x0A # universal_newlines cs
      else if c = CHR 0x0D then CHR 0x0A # universal_newlines (d # cs)
      else c # universal_newlines (d # cs))"

definition read_bytes :: "path \<Rightarrow> filesystem \<Rightarrow> exn + string" where
  "read_bytes p files =
     (case files p of
        None \<Rightarrow> Inl FileNotFoundError
      | Some Dir \<Rightarrow> Inl IsADirectoryError
      | Some (File content) \<Rightarrow> Inr content)"

definition read_text :: "path \<Rightarrow> filesystem \<Rightarrow> exn + string" where
  "read_text p files =
     (case read_bytes p files of
        Inl e \<Rightarrow> Inl e
      | Inr content \<Rightarrow> Inr (universal_newlines content))"

definition write_text :: "path \<Rightarrow> string \<Rightarrow> filesystem \<Rightarrow> exn + filesystem" where
  "write_text p content files =
     (if files p = Some Dir then Inl IsADirectoryError
      else if files p = None \<and> files (butlast p) \<noteq> Some Dir then Inl FileNotFoundError
      else Inr (files(p \<mapsto> File content)))"

section \<open>CaseSetup\<close>

text \<open>
  A \<open>float\<close> is a finite number, modelled by the real number it stands for, or the
  negative zero, not a number, or an infinity. \<open>f"{x:.8f}"\<close> is the decimal numeral of
  \<open>x\<close> with \<open>d\<close> digits after the point (\<open>d\<close> is 8 or 6 in the scripts), rounded to the
  nearest, a tie to the even digit.
\<close>

datatype pyfloat = Finite real | NegZero | NaN | PosInf | NegInf

definition round_half_even :: "real \<Rightarrow> nat" where
  "round_half_even y =
     (let q = nat \<lfloor>y\<rfloor>; r = y - of_int \<lfloor>y\<rfloor>
      in if r > 1 / 2 \<or> (r = 1 / 2 \<and> odd q) then q + 1 else q)"

definition format_fixed :: "nat \<Rightarrow> pyfloat \<Rightarrow> string" where
  "format_fixed d v =
     (case v of
        NaN \<Rightarrow> ''nan''
      | PosInf \<Rightarrow> ''inf''
      | NegInf \<Rightarrow> ''-inf''
      | NegZero \<Rightarrow> ''-0.'' @ replicate d CHR ''0''
      | Finite x \<Rightarrow>
          (let s = str_nat (round_half_even (\<bar>x\<bar> * 10 ^ d));
               s = replicate (d + 1 - length s) CHR ''0'' @ s
           in (if x < 0 then ''-'' else [])
              @ take (length s - d) s @ ''.'' @ drop (length s - d) s))"

text \<open>
  What \<open>mesh.centroid\<close> evaluates to: an array of floats, or a value without
  subscripts (\<open>None\<close>). The f-string of lines 202 and 256 subscripts it at 0, 1 and 2:
  \<open>TypeError\<close> on a value without subscripts, \<open>IndexError\<close> on a short array.
\<close>

datatype pyvalue = Array "pyfloat list" | Unsubscriptable

definition origin_str :: "pyvalue \<Rightarrow> exn + string" where
  "origin_str centroid =
     (case centroid of
        Unsubscriptable \<Rightarrow> Inl TypeError
      | Array xs \<Rightarrow>
          if length xs < 3 then Inl IndexError
          else Inr (''('' @ format_fixed 8 (xs ! 0) @ '' '' @ format_fixed 6 (xs ! 1)
                     @ '' '' @ format_fixed 6 (xs ! 2) @ '')''))"

text \<open>
  The pattern of \<open>_update_decompose_par_dict\<close>, \<open>numberOfSubdomains\s+\d+;\<close>, and the
  pattern of \<open>_update_wheel_centers\<close> for a component, in its three parts: the first
  group, the parenthesised vector, and the second group. The component is one of
  \<open>FL\<close>, \<open>FR\<close>, \<open>RL\<close>, \<open>RR\<close> (line 197), whose letters the pattern reads as themselves.
\<close>

definition subdomains_pattern :: pattern where
  "subdomains_pattern =
     lits ''numberOfSubdomains'' @ [(Space, Plus), (Digit, Plus), (Lit CHR '';'', Once)]"

definition origin_group1 :: "string \<Rightarrow> pattern" where
  "origin_group1 component =
     [(Space, Plus)] @ lits component
     @ [(Space, Star), (Lit CHR ''{'', Once), (Space, Star), (AnyChar, LazyStar)]
     @ lits ''type'' @ [(Space, Plus)] @ lits ''rotatingWallVelocity;''
     @ [(Space, Star)] @ lits ''origin'' @ [(Space, Plus)]"

definition origin_vector :: pattern where
  "origin_vector = [(Lit CHR ''('', Once), (NotChar CHR '')'', Plus), (Lit CHR '')'', Once)]"

definition origin_group2 :: pattern where
  "origin_group2 = [(Lit CHR '';'', Once), (AnyChar, LazyStar), (Lit CHR ''}'', Once)]"

definition origin_pattern :: "string \<Rightarrow> pattern" where
  "origin_pattern component = origin_group1 component @ origin_vector @ origin_group2"

text \<open>The replacement \<open>\g<1>{origin_str}\g<2>\<close>, on the texts the items matched.\<close>

definition origin_repl :: "string \<Rightarrow> string \<Rightarrow> string list \<Rightarrow> string" where
  "origin_repl component origin ps =
     concat (take (length (origin_group1 component)) ps)
     @ origin
     @ concat (drop (length (origin_group1 component) + length origin_vector) ps)"

definition update_decompose_par_dict :: "path \<Rightarrow> int \<Rightarrow> world \<Rightarrow> exn option \<times> world" where
  "update_decompose_par_dict case_dir n_proc w =
     (let decompose_file = case_dir @ [''system'', ''decomposeParDict''] in
      case path_exists w decompose_file of
        Inl e \<Rightarrow> (Some e, w)
      | Inr found \<Rightarrow>
          if found then
            (case read_text decompose_file (fs w) of
               Inl e \<Rightarrow> (Some e, w)
             | Inr content \<Rightarrow>
                 (let content = re_sub subdomains_pattern
                                  (\<lambda>ps. ''numberOfSubdomains '' @ str_int n_proc @ '';'') content
                  in case write_text decompose_file content (fs w) of
                       Inl e \<Rightarrow> (Some e, w)
                     | Inr files \<Rightarrow> (None, print [UpdatedDecompose n_proc] (w\<lparr>fs := files\<rparr>))))
          else (None, w))"

text \<open>
  The \<open>for\<close> loop of \<open>_update_wheel_centers\<close> (lines 254 to 270): the text after the
  substitutions, or the exception of the f-string of line 256.
\<close>

fun origins_loop ::
  "(string \<times> pyvalue) list \<Rightarrow> string \<Rightarrow> msg list \<Rightarrow> (exn + string) \<times> msg list" where
  "origins_loop [] content out = (Inr content, out)"
| "origins_loop ((component, centroid) # rest) content out =
     (case origin_str centroid of
        Inl e \<Rightarrow> (Inl e, out)
      | Inr origin \<Rightarrow>
          (let old_content = content;
               content = re_sub (origin_pattern component) (origin_repl component origin) content
           in if content \<noteq> old_content
              then origins_loop rest content (out @ [UpdatedOrigin component origin])
              else origins_loop rest content (out @ [OriginNotFound component])))"

definition update_wheel_centers ::
  "path \<Rightarrow> (string \<times> pyvalue) list \<Rightarrow> world \<Rightarrow> exn option \<times> world" where
  "update_wheel_centers case_dir wheel_centers w =
     (let u_file = case_dir @ [''0'', ''U''] in
      case path_exists w u_file of
        Inl e \<Rightarrow> (Some e, w)
      | Inr found \<Rightarrow>
          if \<not> found then (None, print [UFileNotFound u_file] w)
          else
            (case read_text u_file (fs w) of
               Inl e \<Rightarrow> (Some e, w)
             | Inr content \<Rightarrow>
                 (case origins_loop wheel_centers content [UpdatingWheelCenters] of
                    (Inl e, out) \<Rightarrow> (Some e, print out w)
                  | (Inr content, out) \<Rightarrow>
                      (case write_text u_file content (fs w) of
                         Inl e \<Rightarrow> (Some e, print out w)
                       | Inr files \<Rightarrow>
                           (None, print (out @ [WheelCentersUpdated]) (w\<lparr>fs := files\<rparr>))))))"

text \<open>
  \<open>trimesh.load(file_path).centroid\<close> reads the file and computes from its bytes; what
  it computes, or that it raises, is the parameter \<open>centroid_of\<close>.
\<close>

definition load_centroid ::
  "(string \<Rightarrow> exn + pyvalue) \<Rightarrow> filesystem \<Rightarrow> path \<Rightarrow> exn + pyvalue" where
  "load_centroid centroid_of files file_path =
     (case read_bytes file_path files of
        Inl e \<Rightarrow> Inl e
      | Inr content \<Rightarrow> centroid_of content)"

text \<open>
  The \<open>for\<close> loop of \<open>setup_case\<close> (lines 189 to 204), over the entries left. In the
  inner \<open>try\<close> the centroid is stored before the message is printed, so a centroid that
  the f-string cannot subscript stays in \<open>wheel_centers\<close>.
\<close>

fun place_files ::
  "(string \<Rightarrow> exn + pyvalue) \<Rightarrow> path \<Rightarrow> (string \<times> path) list \<Rightarrow> (string \<times> pyvalue) list \<Rightarrow> world
     \<Rightarrow> (exn + (string \<times> pyvalue) list) \<times> world"
where
  "place_files centroid_of tri_surface_dir [] wheel_centers w = (Inr wheel_centers, w)"
| "place_files centroid_of tri_surface_dir ((component, file_path) # rest) wheel_centers w =
     (let dest_name = component @ ''.stl'';
          dest_path = tri_surface_dir @ [dest_name];
          w1 = print [Copying component file_path dest_path] w
      in case copy2 file_path dest_path (fs w1) of
           Inl e \<Rightarrow> (Inl e, w1)
         | Inr files \<Rightarrow>
             (let w2 = w1\<lparr>fs := files\<rparr> in
              if component \<in> set [''FL'', ''FR'', ''RL'', ''RR''] then
                (case load_centroid centroid_of (fs w2) file_path of
                   Inl e \<Rightarrow>
                     place_files centroid_of tri_surface_dir rest wheel_centers
                       (print [CentroidWarning component e] w2)
                 | Inr centroid \<Rightarrow>
                     (case origin_str centroid of
                        Inr center \<Rightarrow>
                          place_files centroid_of tri_surface_dir rest
                            (AList.update component centroid wheel_centers)
                            (print [Calculated component center] w2)
                      | Inl e \<Rightarrow>
                          place_files centroid_of tri_surface_dir rest
                            (AList.update component centroid wheel_centers)
                            (print [CentroidWarning component e] w2)))
              else place_files centroid_of tri_surface_dir rest wheel_centers w2))"

text \<open>
  The body of the \<open>try\<close> of \<open>setup_case\<close> in its two parts, each with the exception it
  raises, if any. Lines 174 to 181: the destination is removed when it exists, and the
  template is copied to it.
\<close>

definition replace_destination :: "path \<Rightarrow> path \<Rightarrow> world \<Rightarrow> exn option \<times> world" where
  "replace_destination base_dir case_dir w =
     (case path_exists w case_dir of
        Inl e \<Rightarrow> (Some e, w)
      | Inr found \<Rightarrow>
          (case (if found
                 then (case rmtree case_dir (fs w) of
                         Inl e \<Rightarrow> (Some e, print [Removing case_dir] w)
                       | Inr files \<Rightarrow> (None, (print [Removing case_dir] w)\<lparr>fs := files\<rparr>))
                 else (None, w)) of
             (Some e, w1) \<Rightarrow> (Some e, w1)
           | (None, w1) \<Rightarrow>
               (let w2 = print [CopyingBase base_dir case_dir] w1 in
                case copytree base_dir case_dir (fs w2) of
                  Inl e \<Rightarrow> (Some e, w2)
                | Inr files \<Rightarrow> (None, w2\<lparr>fs := files\<rparr>))))"

text \<open>
  Lines 183 to 211: the directory of the surfaces is made, the files are placed, and
  the velocity file and the decomposition dictionary are patched.
\<close>

definition populate_case ::
  "(string \<Rightarrow> exn + pyvalue) \<Rightarrow> path \<Rightarrow> int \<Rightarrow> (string \<times> path) list \<Rightarrow> world
     \<Rightarrow> exn option \<times> world"
where
  "populate_case centroid_of case_dir n_proc stl_files w =
     (let tri_surface_dir = case_dir @ [''constant'', ''triSurface'']
      in case mkdir_parents tri_surface_dir (fs w) of
        Inl e \<Rightarrow> (Some e, w)
      | Inr files \<Rightarrow>
     (case place_files centroid_of tri_surface_dir stl_files [] (w\<lparr>fs := files\<rparr>) of
        (Inl e, w4) \<Rightarrow> (Some e, w4)
      | (Inr wheel_centers, w4) \<Rightarrow>
     (case (if wheel_centers \<noteq> [] then update_wheel_centers case_dir wheel_centers w4
            else (None, w4)) of
        (Some e, w5) \<Rightarrow> (Some e, w5)
      | (None, w5) \<Rightarrow> update_decompose_par_dict case_dir n_proc w5)))"

definition setup_body ::
  "(string \<Rightarrow> exn + pyvalue) \<Rightarrow> path \<Rightarrow> path \<Rightarrow> int \<Rightarrow> (string \<times> path) list \<Rightarrow> world
     \<Rightarrow> exn option \<times> world"
where
  "setup_body centroid_of base_dir case_dir n_proc stl_files w =
     (case replace_destination base_dir case_dir w of
        (Some e, w1) \<Rightarrow> (Some e, w1)
      | (None, w1) \<Rightarrow> populate_case centroid_of case_dir n_proc stl_files w1)"

definition setup_case ::
  "(string \<Rightarrow> exn + pyvalue) \<Rightarrow> path \<Rightarrow> path \<Rightarrow> int \<Rightarrow> (string \<times> path) list \<Rightarrow> world
     \<Rightarrow> bool \<times> world"
where
  "setup_case centroid_of base_dir case_dir n_proc stl_files w =
     (case setup_body centroid_of base_dir case_dir n_proc stl_files w of
        (None, w1) \<Rightarrow> (True, print [SetupCompleted] w1)
      | (Some e, w1) \<Rightarrow> (False, print [ErrorSettingUp e] w1))"

text \<open>
  For the examples: a folder in which one file carries the names of two components,
  and a world with that folder and an empty template.
\<close>

definition folder_shared :: "path list" where
  "folder_shared =
     [[''stl'', ''FL_FR.stl''], [''stl'', ''RL.stl''], [''stl'', ''RR.stl''], [''stl'', ''mainBody.stl'']]"

definition world_shared :: world where
  "world_shared =
     \<lparr>fs = [[] \<mapsto> Dir, [''baseCase''] \<mapsto> Dir, [''stl''] \<mapsto> Dir,
             [''stl'', ''FL_FR.stl''] \<mapsto> File ''solid front'',
             [''stl'', ''RL.stl''] \<mapsto> File ''solid rl'',
             [''stl'', ''RR.stl''] \<mapsto> File ''solid rr'',
             [''stl'', ''mainBody.stl''] \<mapsto> File ''solid body''],
      stdin = [], stdout = [], invoked = [], clock = 0,
      stat_error = (\<lambda>p. None)\<rparr>"

definition mapping_shared :: "(string \<times> path) list" where
  "mapping_shared =
     [(''FL'', [''stl'', ''FL_FR.stl'']), (''FR'', [''stl'', ''FL_FR.stl'']),
      (''RL'', [''stl'', ''RL.stl'']), (''RR'', [''stl'', ''RR.stl'']),
      (''mainBody'', [''stl'', ''mainBody.stl''])]"







section \<open>Properties of the file selector\<close>

lemma str_lower_take: "str_lower (take i s) = take i (str_lower s)"
  by (simp add: str_lower_def take_map)

lemma stem_prefix: "prefix (stem name) name"
  by (auto simp: stem_def take_is_prefix split: option.splits)

lemma suffix_lower_stem_sublist:
  assumes "suffix c (str_lower (stem name))"
  shows "sublist c (str_lower name)"
proof -
  have "prefix (str_lower (stem name)) (str_lower name)"
    using stem_prefix [of name] unfolding str_lower_def by (rule map_mono_prefix)
  then have "sublist (str_lower (stem name)) (str_lower name)"
    by (rule prefix_imp_sublist)
  with assms show ?thesis
    using suffix_imp_sublist sublist_order.order_trans by blast
qed

lemma name_matches_iff_in:
  "name_matches component fname \<longleftrightarrow> py_in (str_lower component) (str_lower fname)"
proof -
  have "suffix (str_lower component @ ''.stl'') s \<Longrightarrow> sublist (str_lower component) s" for s
    by (meson sublist_appendI suffix_imp_sublist sublist_order.order_trans prefix_imp_sublist prefixI)
  then show ?thesis
    unfolding name_matches_def Let_def py_in_def startswith_def endswith_def
    using prefix_imp_sublist by blast
qed

text \<open>
  C6. A file of the listing is counted for a component exactly when, after lowering
  both, the component occurs in the file name, or the file name starts with it, or
  the stem of the file name ends with it.
\<close>

theorem C6_match_iff:
  "stl_file \<in> set (matching_files component stl_files) \<longleftrightarrow>
     stl_file \<in> set stl_files \<and>
     (py_in (str_lower component) (str_lower (path_name stl_file))
      \<or> startswith (str_lower (path_name stl_file)) (str_lower component)
      \<or> endswith (str_lower (stem (path_name stl_file))) (str_lower component))"
proof -
  let ?c = "str_lower component" and ?f = "path_name stl_file"
  have "endswith (str_lower (stem ?f)) ?c \<Longrightarrow> py_in ?c (str_lower ?f)"
    unfolding endswith_def py_in_def by (rule suffix_lower_stem_sublist)
  moreover have "startswith (str_lower ?f) ?c \<Longrightarrow> py_in ?c (str_lower ?f)"
    unfolding startswith_def py_in_def by (rule prefix_imp_sublist)
  ultimately show ?thesis
    unfolding matching_files_def by (auto simp: name_matches_iff_in)
qed

section \<open>Properties of the runners\<close>

lemma first_failing_append:
  "first_failing env h (xs @ ys) =
     (case first_failing env h xs of
        Some k \<Rightarrow> Some k
      | None \<Rightarrow> map_option (\<lambda>k. length xs + k) (first_failing env (h @ xs) ys))"
  by (induction xs arbitrary: h) (auto simp: map_option_case split: option.splits)

lemma first_failing_less: "first_failing env h xs = Some k \<Longrightarrow> k < length xs"
  by (induction xs arbitrary: h k) (auto split: if_splits)

lemma started_append:
  "started env h (xs @ ys) =
     (if first_failing env h xs = None then xs @ started env (h @ xs) ys else started env h xs)"
  by (auto simp: started_def first_failing_append dest: first_failing_less split: option.splits)

lemma runs_run_with_log: "runs env [argv] (run_with_log env argv operation)"
  by (simp add: runs_def run_with_log_def run_tool_def print_def started_def split: prod.splits)

lemma runs_prev_run_with_log: "runs env [argv] (prev_run_with_log env argv)"
  by (simp add: runs_def prev_run_with_log_def run_tool_def print_def started_def split: prod.splits)

lemma runs_decompose_case:
  "runs env [[''decomposePar'', ''-force'', ''-case'', str_path case_dir]] (decompose_case env case_dir)"
  by (simp add: runs_def decompose_case_def run_tool_def print_def started_def split: prod.splits)

lemma runs_reconstruct_case:
  "runs env [[''reconstructPar'', ''-case'', str_path case_dir]] (reconstruct_case env case_dir)"
  by (simp add: runs_def reconstruct_case_def run_tool_def print_def started_def split: prod.splits)

lemma runs_run_parallel_simpleFoam:
  "runs env [[''mpirun'', ''--allow-run-as-root'', ''-np'', str_int n_proc,
         ''simpleFoam'', ''-case'', str_path case_dir, ''-parallel'']] (run_parallel_simpleFoam env case_dir n_proc)"
  by (auto simp: runs_def run_parallel_simpleFoam_def Let_def run_tool_def print_def started_def split: prod.splits)

lemma runs_Nil: "runs env [] (\<lambda>w. (True, w))"
  by (simp add: runs_def started_def)

lemma runs_seq:
  assumes f: "runs env xs f" and g: "runs env ys g"
  shows "runs env (xs @ ys) (\<lambda>w. let (ok, w1) = f w in if \<not> ok then (False, w1) else g w1)"
proof -
  have "fst (f w) = (first_failing env (invoked w) xs = None)"
       "invoked (snd (f w)) = invoked w @ started env (invoked w) xs"
       "\<exists>ms. stdout (snd (f w)) = stdout w @ ms \<and> \<not> list_ex is_elapsed ms"
       "fs (snd (f w)) = fs w" "stdin (snd (f w)) = stdin w" for w
    using f unfolding runs_def by blast+
  note F = this
  have "fst (g w) = (first_failing env (invoked w) ys = None)"
       "invoked (snd (g w)) = invoked w @ started env (invoked w) ys"
       "\<exists>ms. stdout (snd (g w)) = stdout w @ ms \<and> \<not> list_ex is_elapsed ms"
       "fs (snd (g w)) = fs w" "stdin (snd (g w)) = stdin w" for w
    using g unfolding runs_def by blast+
  note G = this
  show ?thesis
    unfolding runs_def
  proof (intro allI)
    fix w
    obtain ok w1 where fw: "f w = (ok, w1)" by (cases "f w")
    show "fst (let (ok, w1) = f w in if \<not> ok then (False, w1) else g w1) = (first_failing env (invoked w) (xs @ ys) = None)
        \<and> invoked (snd (let (ok, w1) = f w in if \<not> ok then (False, w1) else g w1)) = invoked w @ started env (invoked w) (xs @ ys)
        \<and> (\<exists>ms. stdout (snd (let (ok, w1) = f w in if \<not> ok then (False, w1) else g w1)) = stdout w @ ms \<and> \<not> list_ex is_elapsed ms)
        \<and> fs (snd (let (ok, w1) = f w in if \<not> ok then (False, w1) else g w1)) = fs w \<and> stdin (snd (let (ok, w1) = f w in if \<not> ok then (False, w1) else g w1)) = stdin w"
    proof (cases ok)
      case False
      with fw F(1)[of w] have ff: "first_failing env (invoked w) xs \<noteq> None" by simp
      with fw False F[of w] show ?thesis
        by (auto simp: first_failing_append started_append split: option.splits)
    next
      case True
      with fw F(1)[of w] have ff: "first_failing env (invoked w) xs = None" by simp
      then have st: "started env (invoked w) xs = xs" by (simp add: started_def)
      from F(3)[of w] fw obtain ms where ms: "stdout w1 = stdout w @ ms" "\<not> list_ex is_elapsed ms" by auto
      from G(3)[of w1] obtain ms' where ms': "stdout (snd (g w1)) = stdout w1 @ ms'" "\<not> list_ex is_elapsed ms'" by auto
      have "stdout (snd (g w1)) = stdout w @ (ms @ ms') \<and> \<not> list_ex is_elapsed (ms @ ms')"
        using ms ms' by (auto simp: list_ex_iff)
      then have ex: "\<exists>m. stdout (snd (g w1)) = stdout w @ m \<and> \<not> list_ex is_elapsed m" by blast
      from fw F(2)[of w] st have inv: "invoked w1 = invoked w @ xs" by simp
      show ?thesis
        using fw True ff G(1,2,4,5)[of w1] F(4,5)[of w] ex inv
        by (auto simp: first_failing_append started_append split: option.splits)
    qed
  qed
qed

lemma extract_loop_unfold:
  "extract_loop env case_dir (d # rest) =
     (\<lambda>w. let (ok, w1) = run_surfaceFeatureExtract env case_dir d w
          in if \<not> ok then (False, w1) else extract_loop env case_dir rest w1)"
  by (rule ext) simp

lemma runs_extract_loop:
  "runs env (map (\<lambda>d. [''surfaceFeatureExtract'', ''-case'', str_path case_dir, ''-dict'', d]) ds)
     (extract_loop env case_dir ds)"
proof (induction ds)
  case Nil
  show ?case using runs_Nil [of env] by (simp add: extract_loop.simps(1) [abs_def])
next
  case (Cons d ds)
  have "runs env [[''surfaceFeatureExtract'', ''-case'', str_path case_dir, ''-dict'', d]]
          (run_surfaceFeatureExtract env case_dir d)"
    unfolding run_surfaceFeatureExtract_def [abs_def] by (rule runs_run_with_log)
  from runs_seq [OF this Cons.IH] show ?case
    unfolding extract_loop_unfold by simp
qed

lemma prev_extract_loop_unfold:
  "prev_extract_loop env case_dir (d # rest) =
     (\<lambda>w. let (ok, w1) = prev_run_surfaceFeatureExtract env case_dir d w
          in if \<not> ok then (False, w1) else prev_extract_loop env case_dir rest w1)"
  by (rule ext) simp

lemma runs_prev_extract_loop:
  "runs env (map (\<lambda>d. [''surfaceFeatureExtract'', ''-case'', str_path case_dir, ''-dict'', d]) ds)
     (prev_extract_loop env case_dir ds)"
proof (induction ds)
  case Nil
  show ?case using runs_Nil [of env] by (simp add: prev_extract_loop.simps(1) [abs_def])
next
  case (Cons d ds)
  have "runs env [[''surfaceFeatureExtract'', ''-case'', str_path case_dir, ''-dict'', d]]
          (prev_run_surfaceFeatureExtract env case_dir d)"
    unfolding prev_run_surfaceFeatureExtract_def [abs_def] by (rule runs_prev_run_with_log)
  from runs_seq [OF this Cons.IH] show ?case
    unfolding prev_extract_loop_unfold by simp
qed

lemma steps_loop_spec:
  assumes "\<forall>(step_name, step_func, argvs) \<in> set ts. runs env argvs step_func"
  shows "fst (steps_loop (map (\<lambda>(n, f, cs). (n, f)) ts) w)
           = (first_failing env (invoked w) (concat (map (\<lambda>(n, f, cs). cs) ts)) = None)
       \<and> invoked (snd (steps_loop (map (\<lambda>(n, f, cs). (n, f)) ts) w))
           = invoked w @ started env (invoked w) (concat (map (\<lambda>(n, f, cs). cs) ts))
       \<and> (\<exists>ms. stdout (snd (steps_loop (map (\<lambda>(n, f, cs). (n, f)) ts) w)) = stdout w @ ms
              \<and> \<not> list_ex is_elapsed ms
              \<and> (\<forall>k. first_failing env (invoked w) (concat (map (\<lambda>(n, f, cs). cs) ts)) = Some k
                   \<longrightarrow> ms \<noteq> [] \<and> last ms = SimulationFailedAt (step_at ts k)))
       \<and> fs (snd (steps_loop (map (\<lambda>(n, f, cs). (n, f)) ts) w)) = fs w
       \<and> stdin (snd (steps_loop (map (\<lambda>(n, f, cs). (n, f)) ts) w)) = stdin w"
  using assms
proof (induction ts arbitrary: w)
  case Nil
  show ?case by (simp add: started_def)
next
  case (Cons t ts)
  obtain n f cs where t: "t = (n, f, cs)" by (cases t)
  let ?w0 = "print [Separator, Step n, Separator] w"
  from Cons.prems t have rf: "runs env cs f" by simp
  obtain ok w1 where fw: "f ?w0 = (ok, w1)" by (cases "f ?w0")
  have inv0: "invoked ?w0 = invoked w" by (simp add: print_def)
  from rf have F: "ok = (first_failing env (invoked w) cs = None)"
       "invoked w1 = invoked w @ started env (invoked w) cs"
       "\<exists>ms. stdout w1 = stdout ?w0 @ ms \<and> \<not> list_ex is_elapsed ms"
       "fs w1 = fs ?w0" "stdin w1 = stdin ?w0"
    unfolding runs_def using fw inv0 by (metis fst_conv snd_conv)+
  from F(3) obtain ms where ms: "stdout w1 = stdout w @ [Separator, Step n, Separator] @ ms"
      "\<not> list_ex is_elapsed ms"
    by (auto simp: print_def)
  show ?case
  proof (cases ok)
    case False
    with F(1) obtain k where k: "first_failing env (invoked w) cs = Some k" by auto
    then have klt: "k < length cs" by (rule first_failing_less)
    have "stdout (print [SimulationFailedAt n] w1)
            = stdout w @ ([Separator, Step n, Separator] @ ms @ [SimulationFailedAt n])"
      using ms by (simp add: print_def)
    moreover have "\<not> list_ex is_elapsed ([Separator, Step n, Separator] @ ms @ [SimulationFailedAt n])"
      using ms by (auto simp: list_ex_iff)
    ultimately show ?thesis
      using False fw t k klt F(2,4,5)
      by (simp add: first_failing_append started_append print_def started_def)
  next
    case True
    with F(1) have none: "first_failing env (invoked w) cs = None" by simp
    with F(2) have inv1: "invoked w1 = invoked w @ cs" by (simp add: started_def)
    from Cons.prems have "\<forall>(step_name, step_func, argvs) \<in> set ts. runs env argvs step_func" by simp
    note IH = Cons.IH [OF this, of w1]
    let ?r = "steps_loop (map (\<lambda>(n, f, cs). (n, f)) ts) w1"
    let ?rest = "concat (map (\<lambda>(n, f, cs). cs) ts)"
    from IH obtain ms' where ms': "stdout (snd ?r) = stdout w1 @ ms'" "\<not> list_ex is_elapsed ms'"
      "\<forall>k. first_failing env (invoked w1) ?rest = Some k \<longrightarrow> ms' \<noteq> [] \<and> last ms' = SimulationFailedAt (step_at ts k)"
      by blast
    have out: "stdout (snd ?r) = stdout w @ ([Separator, Step n, Separator] @ ms @ ms')"
      using ms ms' by simp
    have ne: "\<not> list_ex is_elapsed ([Separator, Step n, Separator] @ ms @ ms')"
      using ms ms' by (auto simp: list_ex_iff)
    have lastk: "\<forall>k. first_failing env (invoked w) (cs @ ?rest) = Some k
        \<longrightarrow> [Separator, Step n, Separator] @ ms @ ms' \<noteq> []
          \<and> last ([Separator, Step n, Separator] @ ms @ ms') = SimulationFailedAt (step_at (t # ts) k)"
      using ms'(3) none inv1 t by (auto simp: first_failing_append)
    have loop: "steps_loop (map (\<lambda>(n, f, cs). (n, f)) (t # ts)) w = ?r"
      using t fw True by simp
    show ?thesis
      unfolding loop
      using IH out ne lastk none inv1 F(4,5) t
      by (auto simp: first_failing_append started_append print_def)
  qed
qed

lemma steps_eq: "steps env case_dir n_proc = map (\<lambda>(n, f, cs). (n, f)) (steps_with_argvs env case_dir n_proc)"
  by (simp add: steps_def steps_with_argvs_def)

lemma pipeline_eq:
  "pipeline_argvs case_dir n_proc = concat (map (\<lambda>(n, f, cs). cs) (steps_with_argvs env case_dir n_proc))"
  by (simp add: pipeline_argvs_def steps_with_argvs_def)

lemma runs_steps_with_argvs:
  "\<forall>(step_name, step_func, argvs) \<in> set (steps_with_argvs env case_dir n_proc). runs env argvs step_func"
  using runs_run_with_log [of env] runs_extract_loop [of env case_dir dicts]
    runs_decompose_case [of env case_dir] runs_reconstruct_case [of env case_dir]
    runs_run_parallel_simpleFoam [of env n_proc case_dir]
  by (simp add: steps_with_argvs_def run_blockMesh_def [abs_def] run_snappyHexMesh_def [abs_def]
       run_all_surfaceFeatureExtract_def [abs_def])

lemma step_at_index:
  "k < 10 \<Longrightarrow> step_at (steps_with_argvs env case_dir n_proc) k = step_of_index k"
  by (auto simp: steps_with_argvs_def step_of_index_def dicts_def)

lemma length_pipeline: "length (pipeline_argvs case_dir n_proc) = 10"
  by (simp add: pipeline_argvs_def dicts_def)

lemma distinct_pipeline: "distinct (pipeline_argvs case_dir n_proc)"
  by (simp add: pipeline_argvs_def dicts_def)

lemma runs_seq': "runs env xs f \<Longrightarrow> runs env ys g \<Longrightarrow> runs env (xs @ ys) (seq f g)"
  unfolding seq_def [abs_def] by (rule runs_seq)

lemma silent_seq: "silent f \<Longrightarrow> silent g \<Longrightarrow> silent (seq f g)"
  by (auto simp: silent_def seq_def split: prod.splits) (metis snd_conv)+

lemma silent_prev_run_with_log: "silent (prev_run_with_log env argv)"
  by (simp add: silent_def prev_run_with_log_def run_tool_def split: prod.splits)

lemma silent_prev_extract_loop: "silent (prev_extract_loop env case_dir ds)"
proof (induction ds)
  case Nil
  show ?case by (simp add: silent_def)
next
  case (Cons d ds)
  have "silent (prev_run_surfaceFeatureExtract env case_dir d)"
    unfolding prev_run_surfaceFeatureExtract_def [abs_def] by (rule silent_prev_run_with_log)
  from silent_seq [OF this Cons.IH] show ?case
    unfolding prev_extract_loop_unfold seq_def [abs_def] .
qed

lemma run_all_unfold:
  "run_all env case_dir n_proc w =
     (let (ok, w6) = prev_calls env case_dir n_proc w
      in if \<not> ok then (False, w6) else (True, print [PrevTotalElapsed (clock w6 - clock w)] w6))"
  by (simp add: run_all_def prev_calls_def seq_def Let_def split: prod.splits)

lemma runs_prev_calls: "runs env (pipeline_argvs case_dir n_proc) (prev_calls env case_dir n_proc)"
proof -
  note one = runs_prev_run_with_log [of env]
  have "runs env ([[''blockMesh'', ''-case'', str_path case_dir]]
     @ map (\<lambda>d. [''surfaceFeatureExtract'', ''-case'', str_path case_dir, ''-dict'', d]) dicts
     @ [[''snappyHexMesh'', ''-overwrite'', ''-case'', str_path case_dir]]
     @ [[''decomposePar'', ''-force'', ''-case'', str_path case_dir]]
     @ [[''mpirun'', ''--allow-run-as-root'', ''-np'', str_int n_proc,
         ''simpleFoam'', ''-case'', str_path case_dir, ''-parallel'']]
     @ [[''reconstructPar'', ''-case'', str_path case_dir]]) (prev_calls env case_dir n_proc)"
    unfolding prev_calls_def prev_run_blockMesh_def [abs_def] prev_run_snappyHexMesh_def [abs_def]
      prev_decompose_case_def [abs_def] prev_run_parallel_simpleFoam_def [abs_def]
      prev_reconstruct_case_def [abs_def] prev_run_all_surfaceFeatureExtract_def [abs_def]
    by (intro runs_seq' one runs_prev_extract_loop)
  then show ?thesis by (simp add: pipeline_argvs_def)
qed

lemma silent_prev_calls: "silent (prev_calls env case_dir n_proc)"
  unfolding prev_calls_def prev_run_blockMesh_def [abs_def] prev_run_snappyHexMesh_def [abs_def]
      prev_decompose_case_def [abs_def] prev_run_parallel_simpleFoam_def [abs_def]
      prev_reconstruct_case_def [abs_def] prev_run_all_surfaceFeatureExtract_def [abs_def]
  by (intro silent_seq silent_prev_run_with_log silent_prev_extract_loop)

lemma full_simulation_spec:
  fixes env case_dir n_proc w
  defines "r \<equiv> steps_loop (steps env case_dir n_proc) (print [StartingPipeline] w)"
  defines "cmds \<equiv> pipeline_argvs case_dir n_proc"
  shows "fst r = (first_failing env (invoked w) cmds = None)"
    and "invoked (snd r) = invoked w @ started env (invoked w) cmds"
    and "\<exists>ms. stdout (snd r) = stdout w @ StartingPipeline # ms \<and> \<not> list_ex is_elapsed ms
            \<and> (\<forall>k. first_failing env (invoked w) cmds = Some k
                  \<longrightarrow> ms \<noteq> [] \<and> last ms = SimulationFailedAt (step_of_index k))"
proof -
  let ?w0 = "print [StartingPipeline] w"
  have inv0: "invoked ?w0 = invoked w" and out0: "stdout ?w0 = stdout w @ [StartingPipeline]"
    by (simp_all add: print_def)
  note spec = steps_loop_spec [OF runs_steps_with_argvs, of env case_dir n_proc ?w0,
      folded steps_eq pipeline_eq, unfolded inv0 out0, folded r_def cmds_def]
  from spec show "fst r = (first_failing env (invoked w) cmds = None)"
    and "invoked (snd r) = invoked w @ started env (invoked w) cmds" by blast+
  from spec obtain ms where ms: "stdout (snd r) = (stdout w @ [StartingPipeline]) @ ms"
     "\<not> list_ex is_elapsed ms"
     "\<forall>k. first_failing env (invoked w) cmds = Some k \<longrightarrow>
          ms \<noteq> [] \<and> last ms = SimulationFailedAt (step_at (steps_with_argvs env case_dir n_proc) k)"
    by blast
  have "\<forall>k. first_failing env (invoked w) cmds = Some k
                  \<longrightarrow> ms \<noteq> [] \<and> last ms = SimulationFailedAt (step_of_index k)"
    using ms(3) first_failing_less [of env "invoked w" cmds] step_at_index [of _ env case_dir n_proc]
    by (auto simp: cmds_def length_pipeline)
  with ms(1,2) show "\<exists>ms. stdout (snd r) = stdout w @ StartingPipeline # ms \<and> \<not> list_ex is_elapsed ms
            \<and> (\<forall>k. first_failing env (invoked w) cmds = Some k
                  \<longrightarrow> ms \<noteq> [] \<and> last ms = SimulationFailedAt (step_of_index k))"
    by auto
qed

text \<open>
  C1, as amended. When the process of index \<open>k\<close> is the first to return a code other
  than zero, both runners return \<open>False\<close> having started the processes up to that one
  and no other, each once (the ten argument vectors are distinct).
  \<open>run_full_simulation\<close> ends its output with the failure message naming the step of
  that process; \<open>run_all\<close> of the previous runner prints nothing.
\<close>

theorem C1_stops_at_first_failure:
  assumes "first_failing env (invoked w) (pipeline_argvs case_dir n_proc) = Some k"
  shows "fst (run_full_simulation env case_dir n_proc w) = False
       \<and> invoked (snd (run_full_simulation env case_dir n_proc w))
           = invoked w @ take (Suc k) (pipeline_argvs case_dir n_proc)
       \<and> last (stdout (snd (run_full_simulation env case_dir n_proc w)))
           = SimulationFailedAt (step_of_index k)
       \<and> fst (run_all env case_dir n_proc w) = False
       \<and> invoked (snd (run_all env case_dir n_proc w))
           = invoked w @ take (Suc k) (pipeline_argvs case_dir n_proc)
       \<and> stdout (snd (run_all env case_dir n_proc w)) = stdout w
       \<and> distinct (pipeline_argvs case_dir n_proc)"
proof -
  let ?r = "steps_loop (steps env case_dir n_proc) (print [StartingPipeline] w)"
  note S = full_simulation_spec [of env case_dir n_proc w]
  from S(1) assms have nok: "\<not> fst ?r" by simp
  then have full: "run_full_simulation env case_dir n_proc w = (False, snd ?r)"
    by (cases ?r) (simp add: run_full_simulation_def Let_def)
  from S(3) assms obtain ms where "stdout (snd ?r) = stdout w @ StartingPipeline # ms"
     "ms \<noteq> []" "last ms = SimulationFailedAt (step_of_index k)" by blast
  then have lst: "last (stdout (snd ?r)) = SimulationFailedAt (step_of_index k)" by simp
  have P: "fst (prev_calls env case_dir n_proc w) = False"
     "invoked (snd (prev_calls env case_dir n_proc w)) = invoked w @ take (Suc k) (pipeline_argvs case_dir n_proc)"
    using runs_prev_calls [of env case_dir n_proc] assms by (simp_all add: runs_def started_def)
  have Q: "stdout (snd (prev_calls env case_dir n_proc w)) = stdout w"
    using silent_prev_calls [of env case_dir n_proc] by (simp add: silent_def)
  from P(1) have prev: "run_all env case_dir n_proc w = (False, snd (prev_calls env case_dir n_proc w))"
    by (cases "prev_calls env case_dir n_proc w") (simp add: run_all_unfold)
  show ?thesis
    using full S(2) assms lst prev P(2) Q distinct_pipeline [of case_dir n_proc]
    by (simp add: started_def)
qed

lemmas run_defs = run_full_simulation_def steps_def run_blockMesh_def run_with_log_def run_tool_def
  print_def tools_failing_def world0_def str_path_def run_all_surfaceFeatureExtract_def dicts_def
  run_surfaceFeatureExtract_def run_snappyHexMesh_def decompose_case_def
  run_parallel_simpleFoam_def reconstruct_case_def

lemmas prev_defs = run_all_def prev_run_blockMesh_def prev_run_with_log_def run_tool_def
  print_def tools_failing_def world0_def str_path_def prev_run_all_surfaceFeatureExtract_def
  dicts_def prev_run_surfaceFeatureExtract_def prev_run_snappyHexMesh_def prev_decompose_case_def
  prev_run_parallel_simpleFoam_def prev_reconstruct_case_def

text \<open>The run in which \<open>snappyHexMesh\<close>, the seventh process, fails.\<close>

theorem C1_witness:
  "first_failing (tools_failing ''snappyHexMesh'') (invoked world0) (pipeline_argvs [''case''] 6) = Some 6
   \<and> fst (run_full_simulation (tools_failing ''snappyHexMesh'') [''case''] 6 world0) = False
   \<and> map hd (invoked (snd (run_full_simulation (tools_failing ''snappyHexMesh'') [''case''] 6 world0)))
       = [''blockMesh'', ''surfaceFeatureExtract'', ''surfaceFeatureExtract'', ''surfaceFeatureExtract'',
          ''surfaceFeatureExtract'', ''surfaceFeatureExtract'', ''snappyHexMesh'']
   \<and> last (stdout (snd (run_full_simulation (tools_failing ''snappyHexMesh'') [''case''] 6 world0)))
       = SimulationFailedAt ''Mesh generation''
   \<and> fst (run_all (tools_failing ''snappyHexMesh'') [''case''] 6 world0) = False
   \<and> stdout (snd (run_all (tools_failing ''snappyHexMesh'') [''case''] 6 world0)) = []"
proof -
  have h: "first_failing (tools_failing ''snappyHexMesh'') (invoked world0) (pipeline_argvs [''case''] 6) = Some 6"
    by (simp add: tools_failing_def pipeline_argvs_def dicts_def str_path_def world0_def)
  have "map hd (take 7 (pipeline_argvs [''case''] 6)) = [''blockMesh'', ''surfaceFeatureExtract'', ''surfaceFeatureExtract'', ''surfaceFeatureExtract'',
          ''surfaceFeatureExtract'', ''surfaceFeatureExtract'', ''snappyHexMesh'']"
    by (simp add: pipeline_argvs_def dicts_def)
  with C1_stops_at_first_failure [OF h] h show ?thesis
    by (simp add: step_of_index_def world0_def)
qed

text \<open>
  C1 as stated fails on the previous runner: whether the first process fails or the
  last, \<open>run_all\<close> returns \<open>False\<close> and has printed nothing, so what it reports does not
  tell the failing stage.
\<close>

theorem C1_counterexample:
  "first_failing (tools_failing ''blockMesh'') (invoked world0) (pipeline_argvs [''case''] 6) = Some 0
   \<and> first_failing (tools_failing ''reconstructPar'') (invoked world0) (pipeline_argvs [''case''] 6) = Some 9
   \<and> fst (run_all (tools_failing ''blockMesh'') [''case''] 6 world0) = False
   \<and> stdout (snd (run_all (tools_failing ''blockMesh'') [''case''] 6 world0)) = []
   \<and> fst (run_all (tools_failing ''reconstructPar'') [''case''] 6 world0) = False
   \<and> stdout (snd (run_all (tools_failing ''reconstructPar'') [''case''] 6 world0)) = []"
proof -
  have "first_failing (tools_failing ''blockMesh'') (invoked world0) (pipeline_argvs [''case''] 6) = Some 0"
    and "first_failing (tools_failing ''reconstructPar'') (invoked world0) (pipeline_argvs [''case''] 6) = Some 9"
    by (simp_all add: tools_failing_def pipeline_argvs_def dicts_def str_path_def world0_def)
  moreover have "fst (run_all (tools_failing ''blockMesh'') [''case''] 6 world0) = False"
    and "stdout (snd (run_all (tools_failing ''blockMesh'') [''case''] 6 world0)) = []"
    by (simp_all add: prev_defs)
  moreover have "fst (run_all (tools_failing ''reconstructPar'') [''case''] 6 world0) = False"
    and "stdout (snd (run_all (tools_failing ''reconstructPar'') [''case''] 6 world0)) = []"
    by (simp_all add: prev_defs)
  ultimately show ?thesis by simp
qed

lemma print_fields:
  "stdout (print ms w) = stdout w @ ms" "clock (print ms w) = clock w"
  "invoked (print ms w) = invoked w" "fs (print ms w) = fs w" "stdin (print ms w) = stdin w"
  by (simp_all add: print_def)

text \<open>
  C5, as amended. The elapsed time is the clock after the last step minus the clock
  at the start. A run in which every process returns zero prints it; a run that stops
  at a failing process returns \<open>False\<close> and prints no elapsed time.
\<close>

theorem C5_elapsed_reported_only_on_success:
  "(first_failing env (invoked w) (pipeline_argvs case_dir n_proc) = None \<longrightarrow>
      fst (run_full_simulation env case_dir n_proc w)
      \<and> TotalElapsed (clock (snd (run_full_simulation env case_dir n_proc w)) - clock w)
           \<in> set (printed_since w (snd (run_full_simulation env case_dir n_proc w)))
      \<and> fst (run_all env case_dir n_proc w)
      \<and> printed_since w (snd (run_all env case_dir n_proc w))
           = [PrevTotalElapsed (clock (snd (run_all env case_dir n_proc w)) - clock w)])
   \<and> (first_failing env (invoked w) (pipeline_argvs case_dir n_proc) \<noteq> None \<longrightarrow>
      \<not> fst (run_full_simulation env case_dir n_proc w)
      \<and> \<not> list_ex is_elapsed (printed_since w (snd (run_full_simulation env case_dir n_proc w)))
      \<and> \<not> fst (run_all env case_dir n_proc w)
      \<and> printed_since w (snd (run_all env case_dir n_proc w)) = [])"
proof -
  let ?r = "steps_loop (steps env case_dir n_proc) (print [StartingPipeline] w)"
  let ?p = "prev_calls env case_dir n_proc w"
  note S = full_simulation_spec [of env case_dir n_proc w]
  from S(3) obtain ms where ms: "stdout (snd ?r) = stdout w @ StartingPipeline # ms"
    "\<not> list_ex is_elapsed ms" by blast
  have P: "fst ?p = (first_failing env (invoked w) (pipeline_argvs case_dir n_proc) = None)"
    using runs_prev_calls [of env case_dir n_proc] by (simp add: runs_def)
  have Q: "stdout (snd ?p) = stdout w"
    using silent_prev_calls [of env case_dir n_proc] by (simp add: silent_def)
  show ?thesis
  proof (cases "first_failing env (invoked w) (pipeline_argvs case_dir n_proc) = None")
    case True
    with S(1) have ok: "fst ?r" by simp
    then have full: "run_full_simulation env case_dir n_proc w
        = (True, print [Separator, SimulationCompleted, TotalElapsed (clock (snd ?r) - clock w), Separator] (snd ?r))"
      by (cases ?r) (simp add: run_full_simulation_def Let_def print_fields)
    from True P have "fst ?p" by simp
    then have prev: "run_all env case_dir n_proc w
        = (True, print [PrevTotalElapsed (clock (snd ?p) - clock w)] (snd ?p))"
      by (cases ?p) (simp add: run_all_unfold)
    show ?thesis
      using True by (simp add: full prev ms Q printed_since_def print_fields)
  next
    case False
    with S(1) have "\<not> fst ?r" by simp
    then have full: "run_full_simulation env case_dir n_proc w = (False, snd ?r)"
      by (cases ?r) (simp add: run_full_simulation_def Let_def)
    from False P have "\<not> fst ?p" by simp
    then have prev: "run_all env case_dir n_proc w = (False, snd ?p)"
      by (cases ?p) (simp add: run_all_unfold)
    show ?thesis
      using False ms(2) by (simp add: full prev ms(1) Q printed_since_def)
  qed
qed

text \<open>A run of ten processes of one tick each, and a run that fails at \<open>decomposePar\<close>.\<close>

theorem C5_witness:
  "first_failing (tools_failing ''nothing'') (invoked world0) (pipeline_argvs [''case''] 6) = None
   \<and> fst (run_full_simulation (tools_failing ''nothing'') [''case''] 6 world0)
   \<and> TotalElapsed 10 \<in> set (stdout (snd (run_full_simulation (tools_failing ''nothing'') [''case''] 6 world0)))
   \<and> stdout (snd (run_all (tools_failing ''nothing'') [''case''] 6 world0)) = [PrevTotalElapsed 10]
   \<and> first_failing (tools_failing ''decomposePar'') (invoked world0) (pipeline_argvs [''case''] 6) = Some 7
   \<and> \<not> fst (run_full_simulation (tools_failing ''decomposePar'') [''case''] 6 world0)
   \<and> \<not> list_ex is_elapsed (stdout (snd (run_full_simulation (tools_failing ''decomposePar'') [''case''] 6 world0)))
   \<and> stdout (snd (run_all (tools_failing ''decomposePar'') [''case''] 6 world0)) = []"
proof -
  have a: "first_failing (tools_failing ''nothing'') (invoked world0) (pipeline_argvs [''case''] 6) = None"
    by (simp add: tools_failing_def pipeline_argvs_def dicts_def str_path_def world0_def)
  have b: "first_failing (tools_failing ''decomposePar'') (invoked world0) (pipeline_argvs [''case''] 6) = Some 7"
    by (simp add: tools_failing_def pipeline_argvs_def dicts_def str_path_def world0_def)
  have c: "clock (snd (run_full_simulation (tools_failing ''nothing'') [''case''] 6 world0)) = 10"
    "clock (snd (run_all (tools_failing ''nothing'') [''case''] 6 world0)) = 10"
    "clock world0 = 0" "stdout world0 = []"
    by (simp_all add: run_defs prev_defs)
  from C5_elapsed_reported_only_on_success [of "tools_failing ''nothing''" world0 "[''case'']" 6]
       C5_elapsed_reported_only_on_success [of "tools_failing ''decomposePar''" world0 "[''case'']" 6]
       a b c
  show ?thesis by (simp add: printed_since_def)
qed

text \<open>
  C5 as stated fails: when \<open>blockMesh\<close> fails after one tick, the whole output of
  \<open>run_full_simulation\<close> is the seven lines below, without an elapsed time, and
  \<open>run_all\<close> prints nothing.
\<close>

theorem C5_counterexample:
  "\<not> fst (run_full_simulation (tools_failing ''blockMesh'') [''case''] 6 world0)
   \<and> stdout (snd (run_full_simulation (tools_failing ''blockMesh'') [''case''] 6 world0))
       = [StartingPipeline, Separator, Step ''Background mesh generation'', Separator,
          Running ''blockMesh'', OpFailed ''blockMesh'' 1,
          SimulationFailedAt ''Background mesh generation'']
   \<and> clock (snd (run_full_simulation (tools_failing ''blockMesh'') [''case''] 6 world0)) = 1
   \<and> \<not> fst (run_all (tools_failing ''blockMesh'') [''case''] 6 world0)
   \<and> stdout (snd (run_all (tools_failing ''blockMesh'') [''case''] 6 world0)) = []"
proof -
  have "run_full_simulation (tools_failing ''blockMesh'') [''case''] 6 world0
      = (False, world0\<lparr>stdout := [StartingPipeline, Separator, Step ''Background mesh generation'',
            Separator, Running ''blockMesh'', OpFailed ''blockMesh'' 1,
            SimulationFailedAt ''Background mesh generation''],
          invoked := [[''blockMesh'', ''-case'', ''case'']], clock := 1\<rparr>)"
    by (simp add: run_defs)
  moreover have "run_all (tools_failing ''blockMesh'') [''case''] 6 world0
      = (False, world0\<lparr>invoked := [[''blockMesh'', ''-case'', ''case'']], clock := 1\<rparr>)"
    by (simp add: prev_defs)
  ultimately show ?thesis by (simp add: world0_def)
qed

section \<open>Properties of the results extractor\<close>
















section \<open>Properties of the resolution of the components\<close>

lemmas match_defs = matching_files_def name_matches_def py_in_def startswith_def endswith_def
  str_lower_def char_lower_def path_name_def sublist_Cons_right suffix_to_prefix

lemma select_loop_spec:
  "(\<exists>ms. snd (snd (select_loop component n ins out)) = out @ ms \<and> (\<forall>m \<in> set ms. \<forall>c. m \<noteq> NoFileFound c))
   \<and> (dropWhile (\<lambda>x. \<not> valid_choice n x) ins = []
        \<longrightarrow> fst (select_loop component n ins out) = Inl EOFError)
   \<and> (\<forall>x rest. dropWhile (\<lambda>x. \<not> valid_choice n x) ins = x # rest
        \<longrightarrow> (\<exists>idx. fst (select_loop component n ins out) = Inr idx)
            \<and> fst (snd (select_loop component n ins out)) = rest)"
proof (induction component n ins out rule: select_loop.induct)
  case (1 component n out)
  show ?case by simp
next
  case (2 component n ins out)
  have nv: "\<not> valid_choice n None" by (simp add: valid_choice_def)
  from 2 obtain ms where ms:
    "snd (snd (select_loop component n ins (out @ [Prompt component n, EnterValidNumber])))
       = out @ [Prompt component n, EnterValidNumber] @ ms"
    "\<forall>m \<in> set ms. \<forall>c. m \<noteq> NoFileFound c"
    by auto
  have "\<exists>ms'. snd (snd (select_loop component n (None # ins) out)) = out @ ms'
      \<and> (\<forall>m \<in> set ms'. \<forall>c. m \<noteq> NoFileFound c)"
    using ms by (intro exI [of _ "[Prompt component n, EnterValidNumber] @ ms"]) auto
  then show ?case
    using 2 nv by simp
next
  case (3 component n choice ins out)
  show ?case
  proof (cases "0 \<le> choice - 1 \<and> choice - 1 < int n")
    case True
    then have v: "valid_choice n (Some choice)" by (auto simp: valid_choice_def)
    have eq: "select_loop component n (Some choice # ins) out
        = (Inr (nat (choice - 1)), ins, out @ [Prompt component n])"
      by (subst select_loop.simps) (simp only: Let_def True if_True simp_thms)
    show ?thesis
      unfolding eq using v by simp
  next
    case False
    then have nv: "\<not> valid_choice n (Some choice)" by (auto simp: valid_choice_def)
    have eq: "select_loop component n (Some choice # ins) out
        = select_loop component n ins (out @ [Prompt component n, InvalidChoice])"
      by (subst select_loop.simps) (simp only: Let_def False if_False simp_thms)
    note IH = 3 [OF refl False]
    from IH obtain ms where ms:
      "snd (snd (select_loop component n ins (out @ [Prompt component n, InvalidChoice])))
         = out @ [Prompt component n, InvalidChoice] @ ms"
      "\<forall>m \<in> set ms. \<forall>c. m \<noteq> NoFileFound c"
      by auto
    have "\<exists>ms'. snd (snd (select_loop component n (Some choice # ins) out)) = out @ ms'
        \<and> (\<forall>m \<in> set ms'. \<forall>c. m \<noteq> NoFileFound c)"
      unfolding eq using ms by (intro exI [of _ "[Prompt component n, InvalidChoice] @ ms"]) auto
    then show ?thesis
      using IH nv unfolding eq by simp
  qed
qed

lemma resolve_missing:
  assumes "\<forall>d \<in> set pre. matching_files d stl_files \<noteq> []" and "matching_files c stl_files = []"
  shows "(console_serves (filter (\<lambda>n. 1 < n) (map (\<lambda>d. length (matching_files d stl_files)) pre))
            (stdin w) \<longrightarrow>
            fst (resolve_components (pre @ c # post) stl_files found w) = Inr []
            \<and> stdout (snd (resolve_components (pre @ c # post) stl_files found w)) \<noteq> []
            \<and> last (stdout (snd (resolve_components (pre @ c # post) stl_files found w)))
                = NoFileFound c)
       \<and> (\<not> console_serves (filter (\<lambda>n. 1 < n) (map (\<lambda>d. length (matching_files d stl_files)) pre))
              (stdin w) \<longrightarrow>
            fst (resolve_components (pre @ c # post) stl_files found w) = Inl EOFError
            \<and> (\<exists>ms. stdout (snd (resolve_components (pre @ c # post) stl_files found w))
                      = stdout w @ ms
                  \<and> (\<forall>m \<in> set ms. \<forall>c. m \<noteq> NoFileFound c)))
       \<and> fs (snd (resolve_components (pre @ c # post) stl_files found w)) = fs w"
  using assms(1)
proof (induction pre arbitrary: found w)
  case Nil
  show ?case using assms(2) by (simp add: print_def)
next
  case (Cons d pre)
  let ?m = "matching_files d stl_files"
  let ?ns = "filter (\<lambda>n. 1 < n) (map (\<lambda>d. length (matching_files d stl_files)) pre)"
  from Cons.prems have ne: "?m \<noteq> []" and rest: "\<forall>d \<in> set pre. matching_files d stl_files \<noteq> []"
    by simp_all
  note IH = Cons.IH [OF rest]
  show ?case
  proof (cases "length ?m = 1")
    case True
    let ?w' = "print [Bound d (path_name (?m ! 0))] w"
    have eq: "resolve_components ((d # pre) @ c # post) stl_files found w
        = resolve_components (pre @ c # post) stl_files (AList.update d (?m ! 0) found) ?w'"
      using True by (simp add: Let_def)
    have ns: "filter (\<lambda>n. 1 < n) (map (\<lambda>d. length (matching_files d stl_files)) (d # pre)) = ?ns"
      using True by simp
    have w': "stdin ?w' = stdin w" "fs ?w' = fs w" "stdout ?w' = stdout w @ [Bound d (path_name (?m ! 0))]"
      by (simp_all add: print_def)
    from IH [where found = "AList.update d (?m ! 0) found" and w = ?w']
    show ?thesis
      unfolding eq ns w' by (auto simp: w')
  next
    case False
    with ne have many: "length ?m > 1" by (cases ?m) auto
    let ?w1 = "print (MultipleFound d # map (\<lambda>(i, file). Candidate (i + 1) (path_name file)) (enumerate 0 ?m)) w"
    have w1: "stdin ?w1 = stdin w" "fs ?w1 = fs w"
      "stdout ?w1 = stdout w
         @ (MultipleFound d # map (\<lambda>(i, file). Candidate (i + 1) (path_name file)) (enumerate 0 ?m))"
      by (simp_all add: print_def)
    have cand: "\<forall>m \<in> set (MultipleFound d
          # map (\<lambda>(i, file). Candidate (i + 1) (path_name file)) (enumerate 0 ?m)). \<forall>c. m \<noteq> NoFileFound c"
      by auto
    have ns: "filter (\<lambda>n. 1 < n) (map (\<lambda>d. length (matching_files d stl_files)) (d # pre))
        = length ?m # ?ns"
      using many by simp
    obtain res ins out where sl: "select_loop d (length ?m) (stdin ?w1) (stdout ?w1) = (res, ins, out)"
      by (cases "select_loop d (length ?m) (stdin ?w1) (stdout ?w1)")
    from select_loop_spec [of d "length ?m" "stdin ?w1" "stdout ?w1"] sl
    obtain ms where ms: "out = stdout ?w1 @ ms" "\<forall>m \<in> set ms. \<forall>c. m \<noteq> NoFileFound c"
      and dw: "dropWhile (\<lambda>x. \<not> valid_choice (length ?m) x) (stdin w) = [] \<longrightarrow> res = Inl EOFError"
        "\<forall>x rest. dropWhile (\<lambda>x. \<not> valid_choice (length ?m) x) (stdin w) = x # rest
           \<longrightarrow> (\<exists>idx. res = Inr idx) \<and> ins = rest"
      unfolding w1 by auto
    show ?thesis
    proof (cases "dropWhile (\<lambda>x. \<not> valid_choice (length ?m) x) (stdin w)")
      case Nil
      with dw have res: "res = Inl EOFError" by simp
      have ncs: "\<not> console_serves (length ?m # ?ns) (stdin w)"
        unfolding console_serves.simps Nil by simp
      have r: "resolve_components ((d # pre) @ c # post) stl_files found w
          = (Inl EOFError, ?w1\<lparr>stdin := ins, stdout := out\<rparr>)"
        using False many sl res by (simp add: Let_def)
      have "\<exists>ms'. out = stdout w @ ms' \<and> (\<forall>m \<in> set ms'. \<forall>c. m \<noteq> NoFileFound c)"
        using ms cand unfolding w1
        by (intro exI [of _ "(MultipleFound d
              # map (\<lambda>(i, file). Candidate (i + 1) (path_name file)) (enumerate 0 ?m)) @ ms"]) auto
      then show ?thesis
        unfolding ns r using ncs by (simp add: w1 print_def del: console_serves.simps)
    next
      case (Cons x rest')
      with dw obtain idx where res: "res = Inr idx" and ins: "ins = rest'" by auto
      let ?w2 = "print [Bound d (path_name (?m ! idx))] (?w1\<lparr>stdin := ins, stdout := out\<rparr>)"
      have r: "resolve_components ((d # pre) @ c # post) stl_files found w
          = resolve_components (pre @ c # post) stl_files (AList.update d (?m ! idx) found) ?w2"
        using False many sl res by (simp add: Let_def)
      have cs: "console_serves (length ?m # ?ns) (stdin w) = console_serves ?ns rest'"
        using Cons by simp
      have w2: "stdin ?w2 = rest'" "fs ?w2 = fs w"
        "stdout ?w2 = stdout w
           @ ((MultipleFound d # map (\<lambda>(i, file). Candidate (i + 1) (path_name file)) (enumerate 0 ?m))
              @ ms @ [Bound d (path_name (?m ! idx))])"
        using ins ms by (simp_all add: print_def)
      have pre_ms: "\<forall>m \<in> set ((MultipleFound d
            # map (\<lambda>(i, file). Candidate (i + 1) (path_name file)) (enumerate 0 ?m))
            @ ms @ [Bound d (path_name (?m ! idx))]). \<forall>c. m \<noteq> NoFileFound c"
        using ms(2) by auto
      note I = IH [where found = "AList.update d (?m ! idx) found" and w = ?w2, unfolded w2]
      have "\<exists>ms'. stdout (snd (resolve_components (pre @ c # post) stl_files
                (AList.update d (?m ! idx) found) ?w2)) = stdout w @ ms'
              \<and> (\<forall>m \<in> set ms'. \<forall>c. m \<noteq> NoFileFound c)"
        if "\<not> console_serves ?ns rest'"
      proof -
        from I that obtain ms2 where ms2:
          "stdout (snd (resolve_components (pre @ c # post) stl_files
                (AList.update d (?m ! idx) found) ?w2))
             = (stdout w
                 @ ((MultipleFound d
                     # map (\<lambda>(i, file). Candidate (i + 1) (path_name file)) (enumerate 0 ?m))
                    @ ms @ [Bound d (path_name (?m ! idx))])) @ ms2"
          "\<forall>m \<in> set ms2. \<forall>c. m \<noteq> NoFileFound c"
          by blast
        show ?thesis
          using ms2 pre_ms
          by (intro exI [of _ "((MultipleFound d
                     # map (\<lambda>(i, file). Candidate (i + 1) (path_name file)) (enumerate 0 ?m))
                    @ ms @ [Bound d (path_name (?m ! idx))]) @ ms2"]) auto
      qed
      with I show ?thesis
        unfolding r ns cs by blast
    qed
  qed
qed

lemma first_missing_split:
  assumes "find (\<lambda>d. matching_files d stl_files = []) components = Some c"
  shows "\<exists>pre post. components = pre @ c # post
           \<and> (\<forall>d \<in> set pre. matching_files d stl_files \<noteq> [])
           \<and> matching_files c stl_files = []
           \<and> takeWhile (\<lambda>d. d \<noteq> c) components = pre"
proof -
  from assms obtain i where i: "i < length components" "components ! i = c"
      "matching_files c stl_files = []"
      "\<forall>j < i. matching_files (components ! j) stl_files \<noteq> []"
    unfolding find_Some_iff by blast
  define pre post where "pre = take i components" and "post = drop (Suc i) components"
  have split: "components = pre @ c # post"
    using id_take_nth_drop [OF i(1)] i(2) unfolding pre_def post_def by simp
  have pre: "\<forall>d \<in> set pre. matching_files d stl_files \<noteq> []"
    using i(1,4) unfolding pre_def by (auto simp: in_set_conv_nth)
  with i(3) have "\<forall>d \<in> set pre. d \<noteq> c" by auto
  then have "takeWhile (\<lambda>d. d \<noteq> c) (pre @ c # post) = pre"
    by (simp add: takeWhile_tail)
  with split pre i(3) show ?thesis by metis
qed

text \<open>
  C7. Let \<open>c\<close> be the first component, in the order of \<open>stl_components\<close>, without a
  matching file. Then no run of the resolution produces a mapping, and the file system
  is the same afterwards. When the console serves a valid choice for every component
  before \<open>c\<close> that has several files, the resolution returns the empty dictionary and
  its last message names \<open>c\<close>. When it does not, the console ends while such a
  component is being chosen: \<open>input\<close> raises \<open>EOFError\<close>, which leaves the resolution,
  and no message about a missing file has been printed.
\<close>

theorem C7_missing_component_aborts:
  assumes "find (\<lambda>d. matching_files d stl_files = []) stl_components = Some c"
  shows "(console_serves (candidates_before c stl_files) (stdin w) \<longrightarrow>
            fst (find_stl_files_in_folder stl_files w) = Inr []
            \<and> last (stdout (snd (find_stl_files_in_folder stl_files w))) = NoFileFound c)
       \<and> (\<not> console_serves (candidates_before c stl_files) (stdin w) \<longrightarrow>
            fst (find_stl_files_in_folder stl_files w) = Inl EOFError
            \<and> (\<forall>d. NoFileFound d \<notin> set (printed_since w (snd (find_stl_files_in_folder stl_files w)))))
       \<and> fs (snd (find_stl_files_in_folder stl_files w)) = fs w"
proof -
  from first_missing_split [OF assms] obtain pre post where
    split: "stl_components = pre @ c # post"
    and pre: "\<forall>d \<in> set pre. matching_files d stl_files \<noteq> []"
    and c: "matching_files c stl_files = []"
    and tw: "takeWhile (\<lambda>d. d \<noteq> c) stl_components = pre"
    by blast
  let ?ms0 = "FoundCount (length stl_files) # map (\<lambda>f. Listed (path_name f)) stl_files"
  let ?w0 = "print ?ms0 w"
  have w0: "stdin ?w0 = stdin w" "fs ?w0 = fs w" "stdout ?w0 = stdout w @ ?ms0"
    by (simp_all add: print_def)
  have cb: "candidates_before c stl_files
      = filter (\<lambda>n. 1 < n) (map (\<lambda>d. length (matching_files d stl_files)) pre)"
    by (simp add: candidates_before_def tw)
  let ?r = "resolve_components stl_components stl_files [] ?w0"
  have M': "(console_serves (candidates_before c stl_files) (stdin w) \<longrightarrow>
            fst ?r = Inr [] \<and> last (stdout (snd ?r)) = NoFileFound c)
       \<and> (\<not> console_serves (candidates_before c stl_files) (stdin w) \<longrightarrow>
            fst ?r = Inl EOFError
            \<and> (\<exists>ms. stdout (snd ?r) = (stdout w @ ?ms0) @ ms
                  \<and> (\<forall>m \<in> set ms. \<forall>c. m \<noteq> NoFileFound c)))
       \<and> fs (snd ?r) = fs w"
    using resolve_missing [OF pre c, where w = ?w0 and post = post and found = "[]", folded split cb]
    unfolding w0 by blast
  have "\<forall>d. NoFileFound d \<notin> set (printed_since w (snd ?r))"
    if "\<not> console_serves (candidates_before c stl_files) (stdin w)"
  proof -
    from M' that obtain ms where ms: "stdout (snd ?r) = (stdout w @ ?ms0) @ ms"
      "\<forall>m \<in> set ms. \<forall>c. m \<noteq> NoFileFound c"
      by blast
    have "printed_since w (snd ?r) = ?ms0 @ ms"
      by (simp add: printed_since_def ms(1))
    with ms(2) show ?thesis by auto
  qed
  with M' show ?thesis
    unfolding find_stl_files_in_folder_def by blast
qed

text \<open>
  A folder with a file for every component but \<open>RR\<close>: \<open>RR\<close> is named. The same when
  \<open>FL\<close> has two files and the console holds an entry that is no choice and then the
  choice of the second.
\<close>

theorem C7_witness:
  "find (\<lambda>d. matching_files d folder_without_RR = []) stl_components = Some ''RR''
   \<and> fst (find_stl_files_in_folder folder_without_RR world0) = Inr []
   \<and> last (stdout (snd (find_stl_files_in_folder folder_without_RR world0))) = NoFileFound ''RR''
   \<and> fs (snd (find_stl_files_in_folder folder_without_RR world0)) = fs world0
   \<and> find (\<lambda>d. matching_files d folder_two_FL = []) stl_components = Some ''RR''
   \<and> fst (find_stl_files_in_folder folder_two_FL (world0\<lparr>stdin := [Some 3, Some 2]\<rparr>)) = Inr []
   \<and> last (stdout (snd (find_stl_files_in_folder folder_two_FL (world0\<lparr>stdin := [Some 3, Some 2]\<rparr>))))
       = NoFileFound ''RR''"
proof -
  have m: "matching_files ''FL'' folder_without_RR = [[''stl'', ''FL.stl'']]"
    "matching_files ''FR'' folder_without_RR = [[''stl'', ''Front_FR.stl'']]"
    "matching_files ''RL'' folder_without_RR = [[''stl'', ''rl.stl'']]"
    "matching_files ''RR'' folder_without_RR = []"
    "matching_files ''mainBody'' folder_without_RR = [[''stl'', ''mainBody.stl'']]"
    by (simp_all add: match_defs folder_without_RR_def)
  have m2: "matching_files ''FL'' folder_two_FL = [[''stl'', ''FL.stl''], [''stl'', ''FL_big.stl'']]"
    "matching_files ''FR'' folder_two_FL = [[''stl'', ''FR.stl'']]"
    "matching_files ''RL'' folder_two_FL = [[''stl'', ''RL.stl'']]"
    "matching_files ''RR'' folder_two_FL = []"
    "matching_files ''mainBody'' folder_two_FL = [[''stl'', ''mainBody.stl'']]"
    by (simp_all add: match_defs folder_two_FL_def)
  have h: "find (\<lambda>d. matching_files d folder_without_RR = []) stl_components = Some ''RR''"
    and h2: "find (\<lambda>d. matching_files d folder_two_FL = []) stl_components = Some ''RR''"
    using m m2 by (simp_all add: stl_components_def)
  have s: "console_serves (candidates_before ''RR'' folder_without_RR) (stdin world0)"
    using m by (simp add: candidates_before_def stl_components_def)
  have s2: "console_serves (candidates_before ''RR'' folder_two_FL)
      (stdin (world0\<lparr>stdin := [Some 3, Some 2]\<rparr>))"
    using m2 by (simp add: candidates_before_def stl_components_def valid_choice_def)
  from C7_missing_component_aborts [OF h, of world0] s
    C7_missing_component_aborts [OF h2, of "world0\<lparr>stdin := [Some 3, Some 2]\<rparr>"] s2 h h2
  show ?thesis by simp
qed

text \<open>
  The missing component is not always named. With two files for \<open>FL\<close>, none for \<open>RR\<close>
  and a console that has ended, \<open>input\<close> raises \<open>EOFError\<close> at the choice for \<open>FL\<close>:
  the resolution is left by that exception and nothing about \<open>RR\<close> has been printed.
\<close>

theorem C7_counterexample:
  "matching_files ''RR'' folder_two_FL = []
   \<and> fst (find_stl_files_in_folder folder_two_FL world0) = Inl EOFError
   \<and> stdout (snd (find_stl_files_in_folder folder_two_FL world0))
       = [FoundCount 5, Listed ''FL.stl'', Listed ''FL_big.stl'', Listed ''FR.stl'',
          Listed ''RL.stl'', Listed ''mainBody.stl'', MultipleFound ''FL'',
          Candidate 1 ''FL.stl'', Candidate 2 ''FL_big.stl'', Prompt ''FL'' 2]"
proof -
  have m2: "matching_files ''FL'' folder_two_FL = [[''stl'', ''FL.stl''], [''stl'', ''FL_big.stl'']]"
    "matching_files ''RR'' folder_two_FL = []"
    by (simp_all add: match_defs folder_two_FL_def)
  have l: "length folder_two_FL = 5"
    "map (\<lambda>f. Listed (if f = [] then [] else last f)) folder_two_FL
       = [Listed ''FL.stl'', Listed ''FL_big.stl'', Listed ''FR.stl'', Listed ''RL.stl'',
          Listed ''mainBody.stl'']"
    by (simp_all add: folder_two_FL_def path_name_def)
  show ?thesis
    by (simp add: find_stl_files_in_folder_def stl_components_def m2 l world0_def print_def
        path_name_def)
qed

section \<open>One file bound to two components\<close>

lemma resolve_shared: "fst (find_stl_files_in_folder folder_shared world_shared) = Inr mapping_shared"
proof -
  have m: "matching_files ''FL'' folder_shared = [[''stl'', ''FL_FR.stl'']]"
    "matching_files ''FR'' folder_shared = [[''stl'', ''FL_FR.stl'']]"
    "matching_files ''RL'' folder_shared = [[''stl'', ''RL.stl'']]"
    "matching_files ''RR'' folder_shared = [[''stl'', ''RR.stl'']]"
    "matching_files ''mainBody'' folder_shared = [[''stl'', ''mainBody.stl'']]"
    by (simp_all add: match_defs folder_shared_def)
  show ?thesis
    by (simp add: find_stl_files_in_folder_def stl_components_def m mapping_shared_def)
qed

lemmas fs_defs = rmtree_def copytree_def mkdir_parents_def copy2_def read_bytes_def read_text_def
  write_text_def is_file_def path_name_def path_exists_def

lemma setup_shared:
  "fst (setup_case (\<lambda>content. Inr (Array [Finite 0, Finite 0, Finite 0])) [''baseCase''] [''case''] 6 mapping_shared world_shared)"
  "fs (snd (setup_case (\<lambda>content. Inr (Array [Finite 0, Finite 0, Finite 0])) [''baseCase''] [''case''] 6 mapping_shared world_shared))
      [''case'', ''constant'', ''triSurface'', ''FL.stl''] = Some (File ''solid front'')"
  "fs (snd (setup_case (\<lambda>content. Inr (Array [Finite 0, Finite 0, Finite 0])) [''baseCase''] [''case''] 6 mapping_shared world_shared))
      [''case'', ''constant'', ''triSurface'', ''FR.stl''] = Some (File ''solid front'')"
  by (simp_all add: setup_case_def setup_body_def replace_destination_def populate_case_def
       mapping_shared_def world_shared_def fs_defs print_def
       load_centroid_def origin_str_def update_decompose_par_dict_def update_wheel_centers_def Let_def)

text \<open>
  C10. In the folder \<open>folder_shared\<close> the file \<open>FL_FR.stl\<close> is the only match of \<open>FL\<close> and
  the only match of \<open>FR\<close>: the resolution succeeds and binds both names to it, and the
  assembly then copies its text to \<open>FL.stl\<close> and to \<open>FR.stl\<close>.
\<close>

theorem C10_one_file_bound_twice:
  "fst (find_stl_files_in_folder folder_shared world_shared) = Inr mapping_shared
   \<and> map_of mapping_shared ''FL'' = Some [''stl'', ''FL_FR.stl'']
   \<and> map_of mapping_shared ''FR'' = Some [''stl'', ''FL_FR.stl'']
   \<and> fst (setup_case (\<lambda>content. Inr (Array [Finite 0, Finite 0, Finite 0])) [''baseCase''] [''case''] 6 mapping_shared world_shared)
   \<and> fs (snd (setup_case (\<lambda>content. Inr (Array [Finite 0, Finite 0, Finite 0])) [''baseCase''] [''case''] 6 mapping_shared world_shared))
        [''case'', ''constant'', ''triSurface'', ''FL.stl''] = Some (File ''solid front'')
   \<and> fs (snd (setup_case (\<lambda>content. Inr (Array [Finite 0, Finite 0, Finite 0])) [''baseCase''] [''case''] 6 mapping_shared world_shared))
        [''case'', ''constant'', ''triSurface'', ''FR.stl''] = Some (File ''solid front'')"
  using resolve_shared setup_shared by (simp add: mapping_shared_def)

section \<open>Properties of the matcher\<close>

lemma cons_first_Cons: "ps \<noteq> [] \<Longrightarrow> cons_first x ps = (x # hd ps) # tl ps"
  by (cases ps) simp_all




lemma rmatch_lazy_stop:
  "rmatch ts s = Some ps \<Longrightarrow> rmatch ((c, LazyStar) # ts) s = Some ([] # ps)"
  by (cases s) simp_all

lemma rmatch_lazy_until:
  assumes "b \<notin> set mid"
  shows "rmatch [(AnyChar, LazyStar), (Lit b, Once)] (mid @ b # rest) = Some [mid, [b]]"
  using assms by (induction mid) auto




section \<open>Properties of the processor-count patch\<close>












section \<open>Properties of the assembly\<close>

lemma print_fs: "fs (print ms w) = fs w" "stat_error (print ms w) = stat_error w"
  by (simp_all add: print_def)

lemma prefix_append_cases: "prefix q (a @ b) \<Longrightarrow> \<not> prefix a q \<Longrightarrow> prefix q a"
  by (auto simp: prefix_append)

lemma copy2_outside:
  "copy2 src (d @ [n]) files = Inr files' \<Longrightarrow> \<not> prefix d q \<Longrightarrow> files' q = files q"
  by (auto simp: copy2_def Let_def split: option.splits node.splits if_splits)

lemma place_files_fail:
  "copy2 file_path (d @ [component @ ''.stl'']) (fs w) = Inl e \<Longrightarrow>
     place_files c d ((component, file_path) # rest) wc w
       = (Inl e, print [Copying component file_path (d @ [component @ ''.stl''])] w)"
  by (simp add: print_fs)

lemma place_files_step:
  assumes "copy2 file_path (d @ [component @ ''.stl'']) (fs w) = Inr files"
  shows "\<exists>wc' w'. place_files c d ((component, file_path) # rest) wc w = place_files c d rest wc' w'
           \<and> fs w' = files \<and> stat_error w' = stat_error w"
proof -
  have P: "\<exists>wc'' w''. place_files c d rest wc' w' = place_files c d rest wc'' w''
      \<and> fs w'' = files \<and> stat_error w'' = stat_error w"
    if "fs w' = files" "stat_error w' = stat_error w" for wc' w'
    using that by blast
  show ?thesis
    using assms by (auto simp: Let_def print_fs split: sum.splits intro!: P)
qed

lemma place_files_stat: "stat_error (snd (place_files c d stl wc w)) = stat_error w"
proof (induction stl arbitrary: wc w)
  case Nil
  show ?case by simp
next
  case (Cons a stl)
  obtain component file_path where a: "a = (component, file_path)" by (cases a)
  show ?case
  proof (cases "copy2 file_path (d @ [component @ ''.stl'']) (fs w)")
    case (Inl e)
    from place_files_fail [OF Inl] show ?thesis unfolding a by (simp add: print_fs)
  next
    case (Inr files)
    from place_files_step [OF Inr, of c rest wc for rest] Cons.IH show ?thesis
      unfolding a by metis
  qed
qed

lemma place_files_outside:
  "\<not> prefix d q \<Longrightarrow> fs (snd (place_files c d stl wc w)) q = fs w q"
proof (induction stl arbitrary: wc w)
  case Nil
  show ?case by simp
next
  case (Cons a stl)
  obtain component file_path where a: "a = (component, file_path)" by (cases a)
  show ?case
  proof (cases "copy2 file_path (d @ [component @ ''.stl'']) (fs w)")
    case (Inl e)
    from place_files_fail [OF Inl] show ?thesis unfolding a by (simp add: print_fs)
  next
    case (Inr files)
    from place_files_step [OF Inr, of c stl wc] obtain wc' w' where
      s: "place_files c d ((component, file_path) # stl) wc w = place_files c d stl wc' w'"
        "fs w' = files"
      by blast
    from copy2_outside [OF Inr Cons.prems] have "files q = fs w q" .
    with Cons.IH [OF Cons.prems, of wc' w'] s show ?thesis
      unfolding a by simp
  qed
qed

text \<open>
  Where the files are placed, and whether placing them fails, does not depend on the
  centroids: neither on what their computation returns nor on whether it raises.
\<close>

lemma place_files_fs:
  assumes "fs wa = fs wb"
  shows "fs (snd (place_files ca d stl wca wa)) = fs (snd (place_files cb d stl wcb wb))
       \<and> (\<forall>e. fst (place_files ca d stl wca wa) = Inl e
               \<longleftrightarrow> fst (place_files cb d stl wcb wb) = Inl e)"
  using assms
proof (induction stl arbitrary: wca wcb wa wb)
  case Nil
  then show ?case by simp
next
  case (Cons a stl)
  obtain component file_path where a: "a = (component, file_path)" by (cases a)
  show ?case
  proof (cases "copy2 file_path (d @ [component @ ''.stl'']) (fs wa)")
    case (Inl e)
    then have "copy2 file_path (d @ [component @ ''.stl'']) (fs wb) = Inl e"
      using Cons.prems by simp
    from place_files_fail [OF Inl] place_files_fail [OF this] Cons.prems show ?thesis
      unfolding a by (simp add: print_fs)
  next
    case (Inr files)
    then have b: "copy2 file_path (d @ [component @ ''.stl'']) (fs wb) = Inr files"
      using Cons.prems by simp
    from place_files_step [OF Inr, of ca stl wca] obtain wca' wa' where
      sa: "place_files ca d ((component, file_path) # stl) wca wa = place_files ca d stl wca' wa'"
        "fs wa' = files"
      by blast
    from place_files_step [OF b, of cb stl wcb] obtain wcb' wb' where
      sb: "place_files cb d ((component, file_path) # stl) wcb wb = place_files cb d stl wcb' wb'"
        "fs wb' = files"
      by blast
    from sa(2) sb(2) have "fs wa' = fs wb'" by simp
    from Cons.IH [OF this, of wca' wcb'] show ?thesis
      unfolding a sa(1) sb(1) .
  qed
qed

lemma place_files_cong:
  assumes "fs wa = fs wb"
  shows "fst (place_files c d stl wc wa) = fst (place_files c d stl wc wb)"
  using assms
proof (induction stl arbitrary: wc wa wb)
  case Nil
  show ?case by simp
next
  case (Cons a stl)
  obtain component file_path where a: "a = (component, file_path)" by (cases a)
  show ?case
    unfolding a using Cons.prems
    by (auto simp: Let_def print_def split: sum.splits intro!: Cons.IH)
qed

text \<open>When every computation of a centroid raises, no centroid is recorded.\<close>

lemma place_files_throw:
  "fst (place_files (\<lambda>content. Inl e) d stl wc w) = Inr wc' \<Longrightarrow> wc' = wc"
proof (induction stl arbitrary: wc w)
  case Nil
  then show ?case by simp
next
  case (Cons a stl)
  obtain component file_path where a: "a = (component, file_path)" by (cases a)
  from Cons.prems show ?case
    unfolding a
    by (auto simp: Let_def load_centroid_def read_bytes_def dest: Cons.IH
        split: sum.splits if_splits option.splits node.splits)
qed

text \<open>
  The two patches read and write one file each; what they return and the files they
  leave depend on the files and on the failures of \<open>stat\<close> only.
\<close>

lemma update_wheel_centers_cong:
  assumes "fs wa = fs wb" "stat_error wa = stat_error wb"
  shows "fst (update_wheel_centers case_dir wc wa) = fst (update_wheel_centers case_dir wc wb)"
    and "fs (snd (update_wheel_centers case_dir wc wa)) = fs (snd (update_wheel_centers case_dir wc wb))"
  using assms
  by (auto simp: update_wheel_centers_def path_exists_def print_def Let_def
      split: option.splits sum.splits prod.splits)

lemma update_wheel_centers_stat:
  "stat_error (snd (update_wheel_centers case_dir wc w)) = stat_error w"
  by (auto simp: update_wheel_centers_def path_exists_def print_def Let_def
      split: option.splits sum.splits prod.splits)

lemma update_wheel_centers_outside:
  "q \<noteq> case_dir @ [''0'', ''U''] \<Longrightarrow> fs (snd (update_wheel_centers case_dir wc w)) q = fs w q"
  by (auto simp: update_wheel_centers_def path_exists_def print_def Let_def write_text_def
      split: option.splits sum.splits prod.splits if_splits)

lemma update_decompose_cong:
  assumes "fs wa = fs wb" "stat_error wa = stat_error wb"
  shows "fst (update_decompose_par_dict case_dir n wa) = fst (update_decompose_par_dict case_dir n wb)"
    and "fs (snd (update_decompose_par_dict case_dir n wa))
           = fs (snd (update_decompose_par_dict case_dir n wb))"
  using assms
  by (auto simp: update_decompose_par_dict_def path_exists_def print_def Let_def
      split: option.splits sum.splits prod.splits)

lemma update_decompose_outside:
  "q \<noteq> case_dir @ [''system'', ''decomposeParDict'']
     \<Longrightarrow> fs (snd (update_decompose_par_dict case_dir n w)) q = fs w q"
  by (auto simp: update_decompose_par_dict_def path_exists_def print_def Let_def write_text_def
      split: option.splits sum.splits prod.splits if_splits)

text \<open>Whether the patch of the dictionary raises is decided by the dictionary alone.\<close>

lemma update_decompose_fst:
  assumes "fs wa (case_dir @ [''system'', ''decomposeParDict''])
      = fs wb (case_dir @ [''system'', ''decomposeParDict''])"
    and "stat_error wa = stat_error wb"
  shows "fst (update_decompose_par_dict case_dir n wa) = fst (update_decompose_par_dict case_dir n wb)"
  using assms
  by (auto simp: update_decompose_par_dict_def path_exists_def print_def Let_def read_text_def
      read_bytes_def write_text_def split: option.splits sum.splits prod.splits node.splits)

lemma populate_case_cong:
  assumes "fs wa = fs wb" "stat_error wa = stat_error wb"
  shows "fst (populate_case c case_dir n stl wa) = fst (populate_case c case_dir n stl wb)
       \<and> fs (snd (populate_case c case_dir n stl wa)) = fs (snd (populate_case c case_dir n stl wb))"
proof (cases "mkdir_parents (case_dir @ [''constant'', ''triSurface'']) (fs wa)")
  case (Inl e)
  with assms show ?thesis by (simp add: populate_case_def)
next
  case (Inr files)
  let ?d = "case_dir @ [''constant'', ''triSurface'']"
  let ?pa = "place_files c ?d stl [] (wa\<lparr>fs := files\<rparr>)"
  let ?pb = "place_files c ?d stl [] (wb\<lparr>fs := files\<rparr>)"
  have e: "fs (wa\<lparr>fs := files\<rparr>) = fs (wb\<lparr>fs := files\<rparr>)" by simp
  have p: "fst ?pa = fst ?pb" using e by (rule place_files_cong)
  have f: "fs (snd ?pa) = fs (snd ?pb)" using place_files_fs [OF e] by blast
  have s: "stat_error (snd ?pa) = stat_error (snd ?pb)"
    using assms(2) by (simp add: place_files_stat)
  obtain ra w4a where a: "?pa = (ra, w4a)" by (cases ?pa)
  obtain rb w4b where b: "?pb = (rb, w4b)" by (cases ?pb)
  from p f s a b have r: "rb = ra" "fs w4a = fs w4b" "stat_error w4a = stat_error w4b" by simp_all
  show ?thesis
  proof (cases ra)
    case (Inl e)
    with Inr assms a b r show ?thesis by (simp add: populate_case_def)
  next
    case (Inr wheel_centers)
    note wcs = this
    show ?thesis
    proof (cases "wheel_centers = []")
      case True
      with \<open>mkdir_parents ?d (fs wa) = Inr files\<close> wcs assms a b r
        update_decompose_cong [OF r(2,3), of case_dir n]
      show ?thesis by (simp add: populate_case_def)
    next
      case False
      let ?ua = "update_wheel_centers case_dir wheel_centers w4a"
      let ?ub = "update_wheel_centers case_dir wheel_centers w4b"
      note u = update_wheel_centers_cong [OF r(2,3), of case_dir wheel_centers]
      have us: "stat_error (snd ?ua) = stat_error (snd ?ub)"
        using r(3) by (simp add: update_wheel_centers_stat)
      obtain ea w5a where ua: "?ua = (ea, w5a)" by (cases ?ua)
      obtain eb w5b where ub: "?ub = (eb, w5b)" by (cases ?ub)
      from u us ua ub have v: "eb = ea" "fs w5a = fs w5b" "stat_error w5a = stat_error w5b"
        by simp_all
      show ?thesis
      proof (cases ea)
        case None
        with \<open>mkdir_parents ?d (fs wa) = Inr files\<close> wcs False assms a b r ua ub v
          update_decompose_cong [OF v(2,3), of case_dir n]
        show ?thesis by (simp add: populate_case_def)
      next
        case (Some e)
        with \<open>mkdir_parents ?d (fs wa) = Inr files\<close> wcs False assms a b r ua ub v
        show ?thesis by (simp add: populate_case_def)
      qed
    qed
  qed
qed

text \<open>
  After the template has been copied, what follows writes below the case directory
  only, and the case directory stays a directory.
\<close>

lemma populate_case_outside:
  assumes dirs: "\<forall>q. prefix q case_dir \<longrightarrow> fs w q = Some Dir"
    and q: "\<not> prefix case_dir q \<or> q = case_dir"
  shows "fs (snd (populate_case c case_dir n stl w)) q = fs w q"
proof (cases "mkdir_parents (case_dir @ [''constant'', ''triSurface'']) (fs w)")
  case (Inl e)
  then show ?thesis by (simp add: populate_case_def)
next
  case (Inr files)
  let ?d = "case_dir @ [''constant'', ''triSurface'']"
  have nd: "\<not> prefix ?d q"
    using q by (auto dest: append_prefixD)
  have nu: "q \<noteq> case_dir @ [''0'', ''U'']" "q \<noteq> case_dir @ [''system'', ''decomposeParDict'']"
    using q by auto
  have m: "files q = fs w q"
  proof (cases "prefix q ?d")
    case True
    have "prefix q case_dir"
    proof (cases "q = case_dir")
      case True
      then show ?thesis by simp
    next
      case False
      with q have "\<not> prefix case_dir q" by simp
      with True show ?thesis by (rule prefix_append_cases)
    qed
    with dirs have "fs w q = Some Dir" by simp
    with Inr True show ?thesis
      by (auto simp: mkdir_parents_def split: if_splits)
  next
    case False
    with Inr show ?thesis
      by (auto simp: mkdir_parents_def split: if_splits)
  qed
  let ?p = "place_files c ?d stl [] (w\<lparr>fs := files\<rparr>)"
  have p: "fs (snd ?p) q = fs w q"
    using place_files_outside [OF nd, of c stl "[]" "w\<lparr>fs := files\<rparr>"] m by simp
  obtain r w4 where pr: "?p = (r, w4)" by (cases ?p)
  with p have w4: "fs w4 q = fs w q" by simp
  show ?thesis
  proof (cases r)
    case (Inl e)
    with Inr pr w4 show ?thesis by (simp add: populate_case_def)
  next
    case (Inr wheel_centers)
    let ?u = "if wheel_centers \<noteq> [] then update_wheel_centers case_dir wheel_centers w4 else (None, w4)"
    obtain e w5 where u: "?u = (e, w5)" by (cases ?u)
    have w5: "fs w5 q = fs w q"
      using u w4 update_wheel_centers_outside [OF nu(1), where wc = wheel_centers and w = w4]
      by (auto split: if_splits)
    show ?thesis
      using \<open>mkdir_parents ?d (fs w) = Inr files\<close> pr Inr u w5
        update_decompose_outside [OF nu(2), where n = n and w = w5]
      by (cases e) (simp_all add: populate_case_def)
  qed
qed

lemma populate_case_stat:
  "stat_error (snd (populate_case c case_dir n stl w)) = stat_error w"
proof -
  have d: "stat_error (snd (update_decompose_par_dict case_dir n w')) = stat_error w'" for w'
    by (auto simp: update_decompose_par_dict_def path_exists_def print_def Let_def
        split: option.splits sum.splits prod.splits)
  have p: "stat_error w4 = stat_error w'"
    if "place_files c (case_dir @ [''constant'', ''triSurface'']) stl [] w' = (r, w4)" for r w4 w'
    using place_files_stat [of c "case_dir @ [''constant'', ''triSurface'']" stl "[]" w'] that
    by simp
  have u: "stat_error w5 = stat_error w4"
    if "update_wheel_centers case_dir wc w4 = (e, w5)" for wc w4 e w5
    using update_wheel_centers_stat [of case_dir wc w4] that by simp
  show ?thesis
    by (auto simp: populate_case_def Let_def d
        split: sum.splits prod.splits option.splits if_splits dest!: p u)
qed

end
